theory Spec2Isabelle
  imports Complex_Main
begin

section \<open>Rendering of Python integers inside f-strings\<close>

text \<open>
  The f-string \<^verbatim>\<open>f"speed_section.{SpeedSection._index}"\<close> renders an unbounded Python
  integer in decimal: no leading zero, a minus sign for negative values.
\<close>

definition digit_char :: "nat \<Rightarrow> char" where
  "digit_char d = ''0123456789'' ! d"

fun str_nat :: "nat \<Rightarrow> string" where
  "str_nat n = (if n < 10 then [digit_char n] else str_nat (n div 10) @ [digit_char (n mod 10)])"

declare str_nat.simps [simp del]

definition str_int :: "int \<Rightarrow> string" where
  "str_int i = (if i < 0 then CHR ''-'' # str_nat (nat (- i)) else str_nat (nat i))"

section \<open>Speed sections (speed\_section.py)\<close>

datatype ApplicableDirection = START_TO_STOP | STOP_TO_START | BOTH

text \<open>
  The track section class lives outside the files at hand; the scripts read its
  \<^verbatim>\<open>length\<close> and give it a \<^verbatim>\<open>label\<close>, which is all the range code needs.
\<close>

record TrackSection =
  track_label :: string
  track_length :: int

text \<open>
  Modelled from the spec: the class \<^verbatim>\<open>ApplicableDirectionsTrackRange\<close> of
  range\_elements.py is not among the files at hand. In the spec's data model a speed
  section holds an ordered list of applicable-direction track ranges, and every validation
  happens inside \<^verbatim>\<open>build()\<close> (section 7): a range is plain data, and constructing one
  checks nothing. Its fields are the four keyword arguments of the call in
  \<^verbatim>\<open>add_track_range\<close>; \<^verbatim>\<open>begin\<close> and \<^verbatim>\<open>end\<close> are reserved words here, hence the
  prefix.
\<close>

record ApplicableDirectionsTrackRange =
  range_begin :: int
  range_end :: int
  track :: TrackSection
  applicable_directions :: ApplicableDirection

text \<open>
  Python lists and dicts are objects with identity: a field holds a reference, and
  \<^verbatim>\<open>append\<close> mutates the object behind it. The process state therefore carries a store
  of list and dict objects next to the class attribute \<^verbatim>\<open>SpeedSection._index\<close>.
\<close>

type_synonym ref = nat

record process =
  SpeedSection_index :: int
  next_ref :: ref
  list_objs :: "ref \<rightharpoonup> ApplicableDirectionsTrackRange list"
  dict_objs :: "ref \<rightharpoonup> (string \<rightharpoonup> real)"

text \<open>The state of a process right after the module is imported: \<^verbatim>\<open>_index = 0\<close>.\<close>

definition process_start :: process where
  "process_start =
     \<lparr>SpeedSection_index = 0, next_ref = 0, list_objs = Map.empty, dict_objs = Map.empty\<rparr>"

record SpeedSection =
  speed_limit :: real
  speed_limit_by_tag :: ref
  track_ranges :: ref
  label :: string
  on_routes :: "string list option"

text \<open>\<^verbatim>\<open>dict()\<close> and \<^verbatim>\<open>list()\<close>, the two \<^verbatim>\<open>default_factory\<close> callables.\<close>

definition new_dict :: "process \<Rightarrow> ref \<times> process" where
  "new_dict p =
     (next_ref p, p\<lparr>next_ref := next_ref p + 1, dict_objs := (dict_objs p)(next_ref p \<mapsto> Map.empty)\<rparr>)"

definition new_list :: "process \<Rightarrow> ref \<times> process" where
  "new_list p =
     (next_ref p, p\<lparr>next_ref := next_ref p + 1, list_objs := (list_objs p)(next_ref p \<mapsto> [])\<rparr>)"

text \<open>\<^verbatim>\<open>_speed_section_id\<close>: read the class counter, then increment it.\<close>

definition speed_section_id :: "process \<Rightarrow> string \<times> process" where
  "speed_section_id p =
     (''speed_section.'' @ str_int (SpeedSection_index p),
      p\<lparr>SpeedSection_index := SpeedSection_index p + 1\<rparr>)"

definition reset_index :: "process \<Rightarrow> process" where
  "reset_index p = p\<lparr>SpeedSection_index := 0\<rparr>"

text \<open>
  The generated \<^verbatim>\<open>__init__\<close> of the dataclass: an argument that is not supplied
  (\<open>None\<close> below) is produced by its factory, in field order.
\<close>

definition SpeedSection_init ::
  "real \<Rightarrow> ref option \<Rightarrow> ref option \<Rightarrow> string option \<Rightarrow> string list option
     \<Rightarrow> process \<Rightarrow> SpeedSection \<times> process" where
  "SpeedSection_init sl tags ranges lbl routes p =
     (let (d, p1) = (case tags of None \<Rightarrow> new_dict p | Some r \<Rightarrow> (r, p));
          (l, p2) = (case ranges of None \<Rightarrow> new_list p1 | Some r \<Rightarrow> (r, p1));
          (s, p3) = (case lbl of None \<Rightarrow> speed_section_id p2 | Some s \<Rightarrow> (s, p2))
      in (\<lparr>speed_limit = sl, speed_limit_by_tag = d, track_ranges = l, label = s,
           on_routes = routes\<rparr>, p3))"

text \<open>
  \<^verbatim>\<open>self.track_ranges.append(ApplicableDirectionsTrackRange(...))\<close>. The method has no
  condition and no \<^verbatim>\<open>raise\<close>. A reference always denotes a live object in Python, so
  the \<open>None\<close> branch is not reachable from states the constructors produce.
\<close>

definition add_track_range ::
  "SpeedSection \<Rightarrow> TrackSection \<Rightarrow> int \<Rightarrow> int \<Rightarrow> ApplicableDirection \<Rightarrow> process \<Rightarrow> process" where
  "add_track_range self trk b e dirs p =
     (case list_objs p (track_ranges self) of
        None \<Rightarrow> p
      | Some rs \<Rightarrow>
          p\<lparr>list_objs := (list_objs p)(track_ranges self \<mapsto>
               rs @ [\<lparr>range_begin = b, range_end = e, track = trk,
                       applicable_directions = dirs\<rparr>])\<rparr>)"

text \<open>\<^verbatim>\<open>self.track_ranges += track_ranges\<close>: the in-place extension of the same list.\<close>

definition add_applicable_track_ranges ::
  "SpeedSection \<Rightarrow> ApplicableDirectionsTrackRange list \<Rightarrow> process \<Rightarrow> process" where
  "add_applicable_track_ranges self new p =
     (case list_objs p (track_ranges self) of
        None \<Rightarrow> p
      | Some rs \<Rightarrow> p\<lparr>list_objs := (list_objs p)(track_ranges self \<mapsto> rs @ new)\<rparr>)"

text \<open>The ranges a speed section currently holds.\<close>

definition ranges_of :: "process \<Rightarrow> SpeedSection \<Rightarrow> ApplicableDirectionsTrackRange list" where
  "ranges_of p s = (case list_objs p (track_ranges s) of None \<Rightarrow> [] | Some rs \<Rightarrow> rs)"


text \<open>
  A construction script, as far as speed sections go: a sequence of constructor calls,
  each with a speed limit and an optional explicit label, run in order.
\<close>

fun create_all :: "(real \<times> string option) list \<Rightarrow> process \<Rightarrow> SpeedSection list \<times> process" where
  "create_all [] p = ([], p)"
| "create_all ((sl, lbl) # rest) p =
     (let (s, p1) = SpeedSection_init sl None None lbl None p;
          (ss, p2) = create_all rest p1
      in (s # ss, p2))"

definition unlabelled :: "real list \<Rightarrow> (real \<times> string option) list" where
  "unlabelled sls = map (\<lambda>sl. (sl, None)) sls"

text \<open>The bounds the data model asks of a range on a track of length \<open>L\<close>.\<close>

definition range_in_bounds :: "ApplicableDirectionsTrackRange \<Rightarrow> bool" where
  "range_in_bounds r \<longleftrightarrow>
     0 \<le> range_begin r \<and> range_begin r \<le> range_end r \<and> range_end r \<le> track_length (track r)"

definition all_in_bounds :: "ApplicableDirectionsTrackRange list \<Rightarrow> bool" where
  "all_in_bounds rs = list_all range_in_bounds rs"

text \<open>
  Modelled from the spec: the builder class and its \<^verbatim>\<open>add_speed_section\<close> are not among
  the files at hand; only the call \<^verbatim>\<open>builder.add_speed_section(30 / 3.6)\<close> in takeover.py
  is. By the spec the operation creates the entity and registers it with the builder; the
  entity is created by the dataclass constructor above, with the caller's arguments.
\<close>

record InfraBuilder =
  speed_sections :: "SpeedSection list"

definition InfraBuilder_init :: InfraBuilder where
  "InfraBuilder_init = \<lparr>speed_sections = []\<rparr>"

definition add_speed_section ::
  "InfraBuilder \<Rightarrow> real \<Rightarrow> string option \<Rightarrow> process \<Rightarrow> (SpeedSection \<times> InfraBuilder) \<times> process" where
  "add_speed_section b sl lbl p =
     (let (s, p1) = SpeedSection_init sl None None lbl None p
      in ((s, b\<lparr>speed_sections := speed_sections b @ [s]\<rparr>), p1))"

section \<open>Geometry helper (make\_geo\_data.py)\<close>

text \<open>
  The helper builds a \<^verbatim>\<open>LineString\<close> of the geojson library: a model with the literal
  \<^verbatim>\<open>type\<close> tag, the coordinates and an optional bounding box. A position is a tuple
  of two or three floats; the coordinates of a line string are a list of at least two
  positions. The model validates its input when it is constructed, and validation of a
  float field converts an integer to a float.

  A Python float is a 64-bit binary float: a finite value, an infinity or a NaN. A finite
  float is carried by its exact real value. A coordinate the caller passes is a float or
  an unbounded integer; other Python values are outside the annotation of
  \<^verbatim>\<open>points\<close> and are not modelled.
\<close>

datatype pyfloat = Finite real | PosInf | NegInf | NaN

datatype pynum = PyFloat pyfloat | PyInt int

datatype 'a Position = Position2D 'a 'a | Position3D 'a 'a 'a

type_synonym LineStringCoords = "pyfloat Position list"

record LineString =
  geo_type :: string
  coordinates :: LineStringCoords
  bbox :: "pyfloat list option"

text \<open>Construction of a model of the validation library either succeeds or raises.\<close>

datatype error = ValidationError string

text \<open>
  Conversion of an integer to a float, as \<^verbatim>\<open>float(n)\<close> does it: the magnitude is
  rounded to 53 significant bits, a tie going to the even neighbour, and a result that
  reaches \<open>2 ^ 1024\<close> is no float.
\<close>

fun bit_length :: "nat \<Rightarrow> nat" where
  "bit_length n = (if n = 0 then 0 else Suc (bit_length (n div 2)))"

declare bit_length.simps [simp del]

definition float_of_int :: "int \<Rightarrow> pyfloat option" where
  "float_of_int n =
     (let a = nat \<bar>n\<bar>;
          k = bit_length a - 53;
          q = a div 2 ^ k;
          r = a mod 2 ^ k;
          m = (if 2 ^ k < 2 * r \<or> (2 * r = 2 ^ k \<and> odd q) then q + 1 else q) * 2 ^ k
      in if 2 ^ 1024 \<le> m then None
         else Some (Finite (if n < 0 then - real m else real m)))"

text \<open>Validation of one float field, of one position and of the list of positions.\<close>

definition validate_float :: "pynum \<Rightarrow> error + pyfloat" where
  "validate_float c =
     (case c of
        PyFloat f \<Rightarrow> Inr f
      | PyInt n \<Rightarrow>
          (case float_of_int n of
             None \<Rightarrow> Inl (ValidationError ''float_type'')
           | Some f \<Rightarrow> Inr f))"

fun validate_position :: "pynum Position \<Rightarrow> error + pyfloat Position" where
  "validate_position (Position2D x y) =
     (case validate_float x of
        Inl err \<Rightarrow> Inl err
      | Inr fx \<Rightarrow>
          (case validate_float y of
             Inl err \<Rightarrow> Inl err
           | Inr fy \<Rightarrow> Inr (Position2D fx fy)))"
| "validate_position (Position3D x y z) =
     (case validate_float x of
        Inl err \<Rightarrow> Inl err
      | Inr fx \<Rightarrow>
          (case validate_float y of
             Inl err \<Rightarrow> Inl err
           | Inr fy \<Rightarrow>
               (case validate_float z of
                  Inl err \<Rightarrow> Inl err
                | Inr fz \<Rightarrow> Inr (Position3D fx fy fz))))"

fun validate_positions :: "pynum Position list \<Rightarrow> error + pyfloat Position list" where
  "validate_positions [] = Inr []"
| "validate_positions (p # ps) =
     (case validate_position p of
        Inl err \<Rightarrow> Inl err
      | Inr fp \<Rightarrow>
          (case validate_positions ps of
             Inl err \<Rightarrow> Inl err
           | Inr fps \<Rightarrow> Inr (fp # fps)))"

definition LineString_init :: "pynum Position list \<Rightarrow> string \<Rightarrow> error + LineString" where
  "LineString_init coords ty =
     (if ty \<noteq> ''LineString'' then Inl (ValidationError ''literal_error'')
      else if length coords < 2 then Inl (ValidationError ''too_short'')
      else (case validate_positions coords of
              Inl err \<Rightarrow> Inl err
            | Inr cs \<Rightarrow> Inr \<lparr>geo_type = ty, coordinates = cs, bbox = None\<rparr>))"

text \<open>\<^verbatim>\<open>make_geo_line\<close>: \<^verbatim>\<open>LineString(coordinates=points, type="LineString")\<close>.\<close>

definition make_geo_line :: "pynum Position list \<Rightarrow> error + LineString" where
  "make_geo_line points = LineString_init points ''LineString''"

text \<open>\<^verbatim>\<open>make_geo_lines\<close>: the dict \<^verbatim>\<open>{"geo": make_geo_line(points)}\<close>.\<close>

definition make_geo_lines :: "pynum Position list \<Rightarrow> error + (string \<rightharpoonup> LineString)" where
  "make_geo_lines points =
     (case make_geo_line points of
        Inl err \<Rightarrow> Inl err
      | Inr line \<Rightarrow> Inr [''geo'' \<mapsto> line])"

text \<open>
  The number a coordinate denotes, and the coordinates that conversion to a float leaves
  as they are: every float, and every integer \<open>n\<close> with \<^verbatim>\<open>float(n) == n\<close>.
\<close>

definition number_value :: "pynum \<Rightarrow> pyfloat" where
  "number_value c = (case c of PyFloat f \<Rightarrow> f | PyInt n \<Rightarrow> Finite (real_of_int n))"

definition kept_by_float :: "pynum \<Rightarrow> bool" where
  "kept_by_float c \<longleftrightarrow>
     (case c of PyFloat f \<Rightarrow> True | PyInt n \<Rightarrow> float_of_int n = Some (Finite (real_of_int n)))"

definition position_kept :: "pynum Position \<Rightarrow> bool" where
  "position_kept p \<longleftrightarrow> list_all kept_by_float (case p of Position2D x y \<Rightarrow> [x, y] | Position3D x y z \<Rightarrow> [x, y, z])"

section \<open>Logical signal schemas (infra\_editor.py)\<close>

text \<open>
  The classes of infra\_editor.py are declarations for the validation library: a model
  class is a list of fields, each with a type and possibly a default. They are embedded as
  data, one declaration per class and in the order the source gives them, together with
  the library's way of validating an input value against a declaration.
\<close>

datatype json =
    JNull
  | JBool bool
  | JNum real
  | JStr string
  | JArr "json list"
  | JObj "(string \<times> json) list"

datatype fdefault = Required | Default json

datatype ftype =
    TLiteral string
  | TEnum "string list"
  | TIdentifier
  | TList ftype
  | TModel "(string \<times> ftype \<times> fdefault) list"
  | TUnion string "ftype list"

text \<open>
  The tag a member of a discriminated union answers to: the value of the \<^verbatim>\<open>Literal\<close>
  type of its discriminator field.
\<close>

fun tag_of :: "string \<Rightarrow> ftype \<Rightarrow> string option" where
  "tag_of disc (TModel fs) =
     (case map_of fs disc of Some (TLiteral s, _) \<Rightarrow> Some s | _ \<Rightarrow> None)"
| "tag_of disc _ = None"

text \<open>
  Validation. The first argument says which strings \<^verbatim>\<open>infra.Identifier\<close> accepts; that
  type is declared in a module outside the files at hand. Extra keys of the input are
  ignored; a missing key takes the field's default or is an error; a discriminated union
  reads the discriminator key of the input (the key must be present, whatever default the
  members declare) and validates against the member with that tag. The library collects
  every error of an input; the model reports the first.
\<close>

fun validate :: "(string \<Rightarrow> bool) \<Rightarrow> ftype \<Rightarrow> json \<Rightarrow> error + json"
  and validate_fields ::
    "(string \<Rightarrow> bool) \<Rightarrow> (string \<times> ftype \<times> fdefault) list \<Rightarrow> (string \<times> json) list
       \<Rightarrow> error + (string \<times> json) list"
  and validate_items :: "(string \<Rightarrow> bool) \<Rightarrow> ftype \<Rightarrow> json list \<Rightarrow> error + json list"
  and validate_union :: "(string \<Rightarrow> bool) \<Rightarrow> string \<Rightarrow> string \<Rightarrow> ftype list \<Rightarrow> json \<Rightarrow> error + json"
where
  "validate idok (TLiteral s) v =
     (if v = JStr s then Inr v else Inl (ValidationError ''literal_error''))"
| "validate idok (TEnum vs) v =
     (case v of
        JStr s \<Rightarrow> if s \<in> set vs then Inr v else Inl (ValidationError ''enum'')
      | _ \<Rightarrow> Inl (ValidationError ''enum''))"
| "validate idok TIdentifier v =
     (case v of
        JStr s \<Rightarrow> if idok s then Inr v else Inl (ValidationError ''string_constraint'')
      | _ \<Rightarrow> Inl (ValidationError ''string_type''))"
| "validate idok (TList t) v =
     (case v of
        JArr xs \<Rightarrow> (case validate_items idok t xs of Inl e \<Rightarrow> Inl e | Inr ys \<Rightarrow> Inr (JArr ys))
      | _ \<Rightarrow> Inl (ValidationError ''list_type''))"
| "validate idok (TModel fs) v =
     (case v of
        JObj kvs \<Rightarrow> (case validate_fields idok fs kvs of Inl e \<Rightarrow> Inl e | Inr out \<Rightarrow> Inr (JObj out))
      | _ \<Rightarrow> Inl (ValidationError ''model_type''))"
| "validate idok (TUnion disc ms) v =
     (case v of
        JObj kvs \<Rightarrow>
          (case map_of kvs disc of
             None \<Rightarrow> Inl (ValidationError ''union_tag_not_found'')
           | Some (JStr tag) \<Rightarrow> validate_union idok disc tag ms v
           | Some _ \<Rightarrow> Inl (ValidationError ''union_tag_invalid''))
      | _ \<Rightarrow> Inl (ValidationError ''model_attributes_type''))"
| "validate_fields idok [] kvs = Inr []"
| "validate_fields idok ((n, t, d) # fs) kvs =
     (case map_of kvs n of
        None \<Rightarrow>
          (case d of
             Required \<Rightarrow> Inl (ValidationError ''missing'')
           | Default dv \<Rightarrow>
               (case validate_fields idok fs kvs of
                  Inl e \<Rightarrow> Inl e
                | Inr out \<Rightarrow> Inr ((n, dv) # out)))
      | Some v \<Rightarrow>
          (case validate idok t v of
             Inl e \<Rightarrow> Inl e
           | Inr v' \<Rightarrow>
               (case validate_fields idok fs kvs of
                  Inl e \<Rightarrow> Inl e
                | Inr out \<Rightarrow> Inr ((n, v') # out))))"
| "validate_items idok t [] = Inr []"
| "validate_items idok t (x # xs) =
     (case validate idok t x of
        Inl e \<Rightarrow> Inl e
      | Inr y \<Rightarrow> (case validate_items idok t xs of Inl e \<Rightarrow> Inl e | Inr ys \<Rightarrow> Inr (y # ys)))"
| "validate_union idok disc tag [] v = Inl (ValidationError ''union_tag_invalid'')"
| "validate_union idok disc tag (m # ms) v =
     (if tag_of disc m = Some tag then validate idok m v
      else validate_union idok disc tag ms v)"

text \<open>The two string enumerations.\<close>

definition SignalingSystem :: ftype where
  "SignalingSystem = TEnum [''BAL'', ''BAPR'', ''TVM300'', ''TVM430'', ''ETCS_LEVEL2'']"

definition FlagSignalParameter :: ftype where
  "FlagSignalParameter = TEnum [''true'', ''false'']"

text \<open>\<^verbatim>\<open>BaseLogicalSignal\<close>: its field comes first in every subclass.\<close>

definition BaseLogicalSignal_fields :: "(string \<times> ftype \<times> fdefault) list" where
  "BaseLogicalSignal_fields = [(''next_signaling_systems'', TList SignalingSystem, Default (JArr []))]"

definition BaseLogicalSignal :: ftype where
  "BaseLogicalSignal = TModel BaseLogicalSignal_fields"

text \<open>\<^verbatim>\<open>BalSystem\<close> and its nested classes.\<close>

definition BalSystem_Settings :: ftype where
  "BalSystem_Settings = TModel [(''Nf'', FlagSignalParameter, Required)]"

definition BalSystem_Parameters :: ftype where
  "BalSystem_Parameters = TModel [(''jaune_cli'', FlagSignalParameter, Required)]"

definition BalSystem_ConditionalParameters :: ftype where
  "BalSystem_ConditionalParameters =
     TModel [(''on_route'', TIdentifier, Required), (''parameters'', BalSystem_Parameters, Required)]"

definition BalSystem :: ftype where
  "BalSystem = TModel (BaseLogicalSignal_fields @
     [(''signaling_system'', TLiteral ''BAL'', Default (JStr ''BAL'')),
      (''settings'', BalSystem_Settings, Required),
      (''default_parameters'', BalSystem_Parameters, Required),
      (''conditional_parameters'', TList BalSystem_ConditionalParameters, Default (JArr []))])"

text \<open>\<^verbatim>\<open>BaprSystem\<close>: the parameter field is named \<^verbatim>\<open>parameters\<close> here.\<close>

definition BaprSystem_Settings :: ftype where
  "BaprSystem_Settings =
     TModel [(''Nf'', FlagSignalParameter, Required), (''distant'', FlagSignalParameter, Required)]"

definition BaprSystem_Parameters :: ftype where
  "BaprSystem_Parameters = TModel []"

definition BaprSystem_ConditionalParameters :: ftype where
  "BaprSystem_ConditionalParameters =
     TModel [(''on_route'', TIdentifier, Required), (''parameters'', BaprSystem_Parameters, Required)]"

definition BaprSystem :: ftype where
  "BaprSystem = TModel (BaseLogicalSignal_fields @
     [(''signaling_system'', TLiteral ''BAPR'', Default (JStr ''BAPR'')),
      (''settings'', BaprSystem_Settings, Required),
      (''parameters'', BaprSystem_Parameters, Required),
      (''conditional_parameters'', TList BaprSystem_ConditionalParameters, Default (JArr []))])"

text \<open>\<^verbatim>\<open>Tvm300System\<close>.\<close>

definition Tvm300System_Settings :: ftype where
  "Tvm300System_Settings = TModel [(''Nf'', FlagSignalParameter, Required)]"

definition Tvm300System_Parameters :: ftype where
  "Tvm300System_Parameters = TModel []"

definition Tvm300System_ConditionalParameters :: ftype where
  "Tvm300System_ConditionalParameters =
     TModel [(''on_route'', TIdentifier, Required), (''parameters'', Tvm300System_Parameters, Required)]"

definition Tvm300System :: ftype where
  "Tvm300System = TModel (BaseLogicalSignal_fields @
     [(''signaling_system'', TLiteral ''TVM300'', Default (JStr ''TVM300'')),
      (''settings'', Tvm300System_Settings, Required),
      (''default_parameters'', Tvm300System_Parameters, Required),
      (''conditional_parameters'', TList Tvm300System_ConditionalParameters, Default (JArr []))])"

text \<open>\<^verbatim>\<open>Tvm430System\<close>.\<close>

definition Tvm430System_Settings :: ftype where
  "Tvm430System_Settings = TModel [(''Nf'', FlagSignalParameter, Required)]"

definition Tvm430System_Parameters :: ftype where
  "Tvm430System_Parameters = TModel []"

definition Tvm430System_ConditionalParameters :: ftype where
  "Tvm430System_ConditionalParameters =
     TModel [(''on_route'', TIdentifier, Required), (''parameters'', Tvm430System_Parameters, Required)]"

definition Tvm430System :: ftype where
  "Tvm430System = TModel (BaseLogicalSignal_fields @
     [(''signaling_system'', TLiteral ''TVM430'', Default (JStr ''TVM430'')),
      (''settings'', Tvm430System_Settings, Required),
      (''default_parameters'', Tvm430System_Parameters, Required),
      (''conditional_parameters'', TList Tvm430System_ConditionalParameters, Default (JArr []))])"

text \<open>\<^verbatim>\<open>EtcsLevel2System\<close>.\<close>

definition EtcsLevel2System_Settings :: ftype where
  "EtcsLevel2System_Settings = TModel [(''Nf'', FlagSignalParameter, Required)]"

definition EtcsLevel2System_Parameters :: ftype where
  "EtcsLevel2System_Parameters = TModel []"

definition EtcsLevel2System_ConditionalParameters :: ftype where
  "EtcsLevel2System_ConditionalParameters =
     TModel [(''on_route'', TIdentifier, Required),
             (''parameters'', EtcsLevel2System_Parameters, Required)]"

definition EtcsLevel2System :: ftype where
  "EtcsLevel2System = TModel (BaseLogicalSignal_fields @
     [(''signaling_system'', TLiteral ''ETCS_LEVEL2'', Default (JStr ''ETCS_LEVEL2'')),
      (''settings'', EtcsLevel2System_Settings, Required),
      (''default_parameters'', EtcsLevel2System_Parameters, Required),
      (''conditional_parameters'', TList EtcsLevel2System_ConditionalParameters,
         Default (JArr []))])"

text \<open>
  \<^verbatim>\<open>LimitedLogicalSignal\<close>: a root model whose root is the union of the five classes,
  discriminated by \<^verbatim>\<open>signaling_system\<close>.
\<close>

definition LimitedLogicalSignal :: ftype where
  "LimitedLogicalSignal =
     TUnion ''signaling_system''
       [BalSystem, BaprSystem, Tvm300System, Tvm430System, EtcsLevel2System]"

text \<open>Reading a model class and a validated object.\<close>

fun fields_of :: "ftype \<Rightarrow> (string \<times> ftype \<times> fdefault) list" where
  "fields_of (TModel fs) = fs"
| "fields_of _ = []"

definition field_names :: "ftype \<Rightarrow> string list" where
  "field_names m = map fst (fields_of m)"

definition field_default :: "ftype \<Rightarrow> string \<Rightarrow> fdefault option" where
  "field_default m n = map_option snd (map_of (fields_of m) n)"

fun members_of :: "json \<Rightarrow> (string \<times> json) list" where
  "members_of (JObj kvs) = kvs"
| "members_of _ = []"

definition get_field :: "json \<Rightarrow> string \<Rightarrow> json option" where
  "get_field v n = map_of (members_of v) n"

fun union_members :: "ftype \<Rightarrow> ftype list" where
  "union_members (TUnion disc ms) = ms"
| "union_members _ = []"

section \<open>The topology builder\<close>

text \<open>
  The builder, its tracks, signals and the document it produces are code of the project
  that is not among the files at hand: the infra scripts only call them. They are modelled
  from the specification, as far as the scenarios and the ordering policy need them.
\<close>

text \<open>
  Modelled from the spec: the error kinds of the builder (section 7). The spec names no
  kind for a negative track length or for a link between the two ends of one track;
  \<open>InvalidArgument\<close> stands for those.
\<close>

datatype build_error =
    DuplicateIdentifier
  | OutOfBoundsOffset
  | EndpointAlreadyConsumed
  | ArityMismatch
  | UnknownVariant
  | InvalidArgument

text \<open>
  Modelled from the spec: the identifier allocator of the builder. A label is the one the
  caller supplies, or the default label \<^verbatim>\<open><kind>.<n>\<close> taken from the
  counter of its kind; the default label is kept as the pair of kind and number.
\<close>

datatype entity_kind = KTrackSection | KSwitch | KDetector | KSignal | KBufferStop

datatype ident = Given string | Auto entity_kind nat

text \<open>Modelled from the spec: endpoints, the two extremities of a track section.\<close>

datatype Extremity = BEGIN | END

type_synonym Endpoint = "ident \<times> Extremity"

text \<open>
  Modelled from the spec: the attached objects. A logical signal is a variant tagged by its
  signaling system, with settings, default parameters and per-route conditional parameters.
\<close>

record LogicalSignal =
  ls_signaling_system :: string
  ls_settings :: "(string \<times> string) list"
  ls_default_parameters :: "(string \<times> string) list"
  ls_conditional_parameters :: "(string \<times> (string \<times> string) list) list"

record Detector =
  det_id :: ident
  det_position :: int

record Signal =
  sig_id :: ident
  sig_position :: int
  sig_direction :: ApplicableDirection
  sig_is_route_delimiter :: bool
  sig_sight_distance :: "int option"
  sig_logical_signals :: "LogicalSignal list"

record BufferStop =
  bs_id :: ident
  bs_position :: int

text \<open>
  Modelled from the spec: a track section under construction, with its attached objects
  in the order they were attached.
\<close>

record BuilderTrack =
  bt_id :: ident
  bt_length :: int
  bt_detectors :: "Detector list"
  bt_signals :: "Signal list"
  bt_buffer_stops :: "BufferStop list"

text \<open>Modelled from the spec: switches, with a type that fixes the number of ports.\<close>

datatype switch_type = PointSwitch

fun arity :: "switch_type \<Rightarrow> nat" where
  "arity PointSwitch = 3"

record Switch =
  sw_id :: ident
  sw_type :: switch_type
  sw_ports :: "Endpoint list"

text \<open>
  Modelled from the spec: the state of the builder while it is building. The speed
  sections are held by the part of the builder introduced with \<^verbatim>\<open>add_speed_section\<close>.
\<close>

record Builder =
  b_infra :: InfraBuilder
  b_tracks :: "BuilderTrack list"
  b_links :: "(Endpoint \<times> Endpoint) list"
  b_switches :: "Switch list"
  b_coords :: "(Endpoint \<times> real \<times> real) list"
  b_counters :: "entity_kind \<Rightarrow> nat"

definition Builder_new :: Builder where
  "Builder_new = \<lparr>b_infra = InfraBuilder_init, b_tracks = [], b_links = [], b_switches = [], b_coords = [],
                   b_counters = (\<lambda>k. 0)\<rparr>"

text \<open>The handle of a track a caller holds: its identifier and its length.\<close>

record TrackHandle =
  th_id :: ident
  th_length :: int

definition track_begin :: "TrackHandle \<Rightarrow> Endpoint" where
  "track_begin th = (th_id th, BEGIN)"

definition track_end :: "TrackHandle \<Rightarrow> Endpoint" where
  "track_end th = (th_id th, END)"

text \<open>Sequencing of operations that may fail: the first failure ends the script.\<close>

definition and_then :: "'e + 'a \<Rightarrow> ('a \<Rightarrow> 'e + 'b) \<Rightarrow> 'e + 'b" where
  "and_then r f = (case r of Inl e \<Rightarrow> Inl e | Inr x \<Rightarrow> f x)"

text \<open>
  Modelled from the spec: allocation of an identifier, from the caller's label or from the
  counter of the kind, which then moves on.
\<close>

definition alloc_id :: "entity_kind \<Rightarrow> string option \<Rightarrow> Builder \<Rightarrow> ident \<times> Builder" where
  "alloc_id k lbl b =
     (case lbl of
        Some s \<Rightarrow> (Given s, b)
      | None \<Rightarrow> (Auto k (b_counters b k), b\<lparr>b_counters := (b_counters b)(k := b_counters b k + 1)\<rparr>))"

text \<open>
  Modelled from the spec: \<^verbatim>\<open>add_track_section(length, label?)\<close> fails if the length is
  negative or the label is already taken.
\<close>

definition add_track_section ::
  "int \<Rightarrow> string option \<Rightarrow> Builder \<Rightarrow> build_error + (TrackHandle \<times> Builder)" where
  "add_track_section len lbl b =
     (if len < 0 then Inl InvalidArgument
      else (let (i, b1) = alloc_id KTrackSection lbl b in
        if i \<in> set (map bt_id (b_tracks b)) then Inl DuplicateIdentifier
        else Inr (\<lparr>th_id = i, th_length = len\<rparr>,
                  b1\<lparr>b_tracks := b_tracks b1 @
                     [\<lparr>bt_id = i, bt_length = len, bt_detectors = [], bt_signals = [],
                       bt_buffer_stops = []\<rparr>]\<rparr>)))"

text \<open>Modelled from the spec: coordinates attached to an endpoint.\<close>

definition set_coords :: "Endpoint \<Rightarrow> real \<Rightarrow> real \<Rightarrow> Builder \<Rightarrow> Builder" where
  "set_coords ep x y b = b\<lparr>b_coords := b_coords b @ [(ep, x, y)]\<rparr>"

text \<open>The endpoints some link or switch port already uses.\<close>

definition consumed :: "(Endpoint \<times> Endpoint) list \<Rightarrow> Switch list \<Rightarrow> Endpoint list" where
  "consumed ls sws = concat (map (\<lambda>(a, c). [a, c]) ls) @ concat (map sw_ports sws)"

text \<open>
  Modelled from the spec: \<^verbatim>\<open>add_link(endpoint_a, endpoint_b)\<close> fails if either endpoint
  is already consumed, or if both belong to the same track section.
\<close>

definition add_link :: "Endpoint \<Rightarrow> Endpoint \<Rightarrow> Builder \<Rightarrow> build_error + Builder" where
  "add_link a c b =
     (if a \<in> set (consumed (b_links b) (b_switches b)) \<or>
         c \<in> set (consumed (b_links b) (b_switches b)) then Inl EndpointAlreadyConsumed
      else if fst a = fst c then Inl InvalidArgument
      else Inr (b\<lparr>b_links := b_links b @ [(a, c)]\<rparr>))"

text \<open>
  Modelled from the spec: creation of a switch fails if the number of endpoints differs
  from the arity of its type, or if an endpoint is already consumed.
\<close>

definition add_switch ::
  "switch_type \<Rightarrow> Endpoint list \<Rightarrow> string option \<Rightarrow> Builder \<Rightarrow> build_error + Builder" where
  "add_switch ty eps lbl b =
     (if length eps \<noteq> arity ty then Inl ArityMismatch
      else if \<not> distinct eps \<or> set eps \<inter> set (consumed (b_links b) (b_switches b)) \<noteq> {}
        then Inl EndpointAlreadyConsumed
      else (let (i, b1) = alloc_id KSwitch lbl b in
        if i \<in> set (map sw_id (b_switches b)) then Inl DuplicateIdentifier
        else Inr (b1\<lparr>b_switches := b_switches b1 @
                     [\<lparr>sw_id = i, sw_type = ty, sw_ports = eps\<rparr>]\<rparr>)))"

definition add_point_switch ::
  "Endpoint \<Rightarrow> Endpoint \<Rightarrow> Endpoint \<Rightarrow> string option \<Rightarrow> Builder \<Rightarrow> build_error + Builder" where
  "add_point_switch base branch_a branch_b lbl b = add_switch PointSwitch [base, branch_a, branch_b] lbl b"

text \<open>
  Modelled from the spec: attaching an object to a track validates its offset against the
  track's length, allocates its identifier and appends it to the track's objects.
\<close>

definition update_track :: "ident \<Rightarrow> (BuilderTrack \<Rightarrow> BuilderTrack) \<Rightarrow> Builder \<Rightarrow> Builder" where
  "update_track tid f b = b\<lparr>b_tracks := map (\<lambda>t. if bt_id t = tid then f t else t) (b_tracks b)\<rparr>"

definition add_detector ::
  "TrackHandle \<Rightarrow> int \<Rightarrow> string option \<Rightarrow> Builder \<Rightarrow> build_error + (Detector \<times> Builder)" where
  "add_detector th pos lbl b =
     (if pos < 0 \<or> th_length th < pos then Inl OutOfBoundsOffset
      else (let (i, b1) = alloc_id KDetector lbl b;
                d = \<lparr>det_id = i, det_position = pos\<rparr>
            in Inr (d, update_track (th_id th) (\<lambda>t. t\<lparr>bt_detectors := bt_detectors t @ [d]\<rparr>) b1)))"

definition add_buffer_stop ::
  "TrackHandle \<Rightarrow> int \<Rightarrow> string option \<Rightarrow> Builder \<Rightarrow> build_error + (BufferStop \<times> Builder)" where
  "add_buffer_stop th pos lbl b =
     (if pos < 0 \<or> th_length th < pos then Inl OutOfBoundsOffset
      else (let (i, b1) = alloc_id KBufferStop lbl b;
                s = \<lparr>bs_id = i, bs_position = pos\<rparr>
            in Inr (s, update_track (th_id th)
                         (\<lambda>t. t\<lparr>bt_buffer_stops := bt_buffer_stops t @ [s]\<rparr>) b1)))"

text \<open>The handle of a signal a caller holds: its track and its identifier.\<close>

record SignalHandle =
  sh_track :: ident
  sh_id :: ident

definition add_signal ::
  "TrackHandle \<Rightarrow> int \<Rightarrow> ApplicableDirection \<Rightarrow> bool \<Rightarrow> string option \<Rightarrow> int option \<Rightarrow> Builder
     \<Rightarrow> build_error + (SignalHandle \<times> Builder)" where
  "add_signal th pos dir delim lbl sight b =
     (if pos < 0 \<or> th_length th < pos then Inl OutOfBoundsOffset
      else (let (i, b1) = alloc_id KSignal lbl b;
                s = \<lparr>sig_id = i, sig_position = pos, sig_direction = dir,
                     sig_is_route_delimiter = delim, sig_sight_distance = sight,
                     sig_logical_signals = []\<rparr>
            in Inr (\<lparr>sh_track = th_id th, sh_id = i\<rparr>,
                    update_track (th_id th) (\<lambda>t. t\<lparr>bt_signals := bt_signals t @ [s]\<rparr>) b1)))"

text \<open>
  Modelled from the spec: a logical signal of an unsupported signaling system is rejected
  when it is constructed. The supported kinds are the members of the enumeration
  \<^verbatim>\<open>SignalingSystem\<close>.
\<close>

fun enum_values :: "ftype \<Rightarrow> string list" where
  "enum_values (TEnum vs) = vs"
| "enum_values _ = []"

definition add_logical_signal ::
  "SignalHandle \<Rightarrow> string \<Rightarrow> (string \<times> string) list \<Rightarrow> Builder \<Rightarrow> build_error + Builder" where
  "add_logical_signal sh kind settings b =
     (if kind \<notin> set (enum_values SignalingSystem) then Inl UnknownVariant
      else Inr (update_track (sh_track sh)
        (\<lambda>t. t\<lparr>bt_signals := map (\<lambda>s. if sig_id s = sh_id sh
                  then s\<lparr>sig_logical_signals := sig_logical_signals s @
                         [\<lparr>ls_signaling_system = kind, ls_settings = settings,
                           ls_default_parameters = [], ls_conditional_parameters = []\<rparr>]\<rparr>
                  else s) (bt_signals t)\<rparr>) b))"

text \<open>
  Modelled from the spec: the document, one array per entity kind. Objects attached to a
  track carry the identifier of their track.
\<close>

record RjsRange =
  rjs_track :: string
  rjs_begin :: int
  rjs_end :: int
  rjs_applicable_directions :: ApplicableDirection

record RjsSpeedSection =
  rjs_id :: string
  rjs_speed_limit :: real
  rjs_speed_limit_by_tag :: "string \<rightharpoonup> real"
  rjs_track_ranges :: "RjsRange list"
  rjs_on_routes :: "string list option"

record Document =
  doc_track_sections :: "(ident \<times> int) list"
  doc_links :: "(Endpoint \<times> Endpoint) list"
  doc_switches :: "Switch list"
  doc_detectors :: "(ident \<times> Detector) list"
  doc_signals :: "(ident \<times> Signal) list"
  doc_buffer_stops :: "(ident \<times> BufferStop) list"
  doc_speed_sections :: "RjsSpeedSection list"

text \<open>
  \<^verbatim>\<open>SpeedSection.to_rjs\<close> (speed\_section.py, lines 46 to 53): the document entry of a
  speed section, with its label as identifier and the entries of its ranges. The entry
  classes and the \<^verbatim>\<open>to_rjs\<close> of a range are modelled from the spec: a range is emitted
  with the identifier of its track, its bounds and its directions.
\<close>

definition range_to_rjs :: "ApplicableDirectionsTrackRange \<Rightarrow> RjsRange" where
  "range_to_rjs r = \<lparr>rjs_track = track_label (track r), rjs_begin = range_begin r,
     rjs_end = range_end r, rjs_applicable_directions = applicable_directions r\<rparr>"

definition SpeedSection_to_rjs :: "process \<Rightarrow> SpeedSection \<Rightarrow> RjsSpeedSection" where
  "SpeedSection_to_rjs p self =
     \<lparr>rjs_id = label self,
      rjs_speed_limit = speed_limit self,
      rjs_speed_limit_by_tag =
        (case dict_objs p (speed_limit_by_tag self) of None \<Rightarrow> Map.empty | Some m \<Rightarrow> m),
      rjs_track_ranges = map range_to_rjs (ranges_of p self),
      rjs_on_routes = on_routes self\<rparr>"


definition offset_ok :: "BuilderTrack \<Rightarrow> int \<Rightarrow> bool" where
  "offset_ok t pos \<longleftrightarrow> 0 \<le> pos \<and> pos \<le> bt_length t"

definition track_offsets_ok :: "BuilderTrack \<Rightarrow> bool" where
  "track_offsets_ok t \<longleftrightarrow>
     list_all (offset_ok t) (map det_position (bt_detectors t)) \<and>
     list_all (offset_ok t) (map sig_position (bt_signals t)) \<and>
     list_all (offset_ok t) (map bs_position (bt_buffer_stops t))"

definition track_variants_ok :: "BuilderTrack \<Rightarrow> bool" where
  "track_variants_ok t \<longleftrightarrow>
     list_all (\<lambda>k. k \<in> set (enum_values SignalingSystem))
       (map ls_signaling_system (concat (map sig_logical_signals (bt_signals t))))"

text \<open>
  Modelled from the spec: \<^verbatim>\<open>build()\<close> validates the global invariants (identifiers
  unique within each kind, no endpoint consumed twice, the arity of every switch, every
  offset and every speed-section range within the bounds of its track, every logical
  signal of a supported kind) and fails with the first violation; otherwise it returns the
  document, in which the detectors and the signals of each track are ordered by ascending
  offset, objects at equal offsets keeping their insertion order, and every other object
  stays in the order it was attached. The ranges of the speed sections live in the store
  of the process, which \<^verbatim>\<open>build()\<close> reads.
\<close>

definition build :: "process \<Rightarrow> Builder \<Rightarrow> build_error + Document" where
  "build p b =
     (if \<not> distinct (map bt_id (b_tracks b)) \<or> \<not> distinct (map sw_id (b_switches b)) \<or>
         \<not> distinct (map det_id (concat (map bt_detectors (b_tracks b)))) \<or>
         \<not> distinct (map sig_id (concat (map bt_signals (b_tracks b)))) \<or>
         \<not> distinct (map bs_id (concat (map bt_buffer_stops (b_tracks b)))) \<or>
         \<not> distinct (map label (speed_sections (b_infra b)))
        then Inl DuplicateIdentifier
      else if \<not> distinct (consumed (b_links b) (b_switches b)) then Inl EndpointAlreadyConsumed
      else if \<not> list_all (\<lambda>s. length (sw_ports s) = arity (sw_type s)) (b_switches b)
        then Inl ArityMismatch
      else if \<not> list_all track_offsets_ok (b_tracks b) \<or>
              \<not> list_all (\<lambda>s. all_in_bounds (ranges_of p s)) (speed_sections (b_infra b))
        then Inl OutOfBoundsOffset
      else if \<not> list_all track_variants_ok (b_tracks b) then Inl UnknownVariant
      else Inr
        \<lparr>doc_track_sections = map (\<lambda>t. (bt_id t, bt_length t)) (b_tracks b),
         doc_links = b_links b,
         doc_switches = b_switches b,
         doc_detectors =
           concat (map (\<lambda>t. map (Pair (bt_id t)) (sort_key det_position (bt_detectors t)))
             (b_tracks b)),
         doc_signals =
           concat (map (\<lambda>t. map (Pair (bt_id t)) (sort_key sig_position (bt_signals t)))
             (b_tracks b)),
         doc_buffer_stops =
           concat (map (\<lambda>t. map (Pair (bt_id t)) (bt_buffer_stops t)) (b_tracks b)),
         doc_speed_sections = map (SpeedSection_to_rjs p) (speed_sections (b_infra b))\<rparr>)"

text \<open>What a builder holds for the track with a given identifier.\<close>

definition track_of :: "Builder \<Rightarrow> ident \<Rightarrow> BuilderTrack option" where
  "track_of b tid = find (\<lambda>t. bt_id t = tid) (b_tracks b)"

definition detectors_on :: "Builder \<Rightarrow> ident \<Rightarrow> Detector list" where
  "detectors_on b tid = (case track_of b tid of None \<Rightarrow> [] | Some t \<Rightarrow> bt_detectors t)"

definition signals_on :: "Builder \<Rightarrow> ident \<Rightarrow> Signal list" where
  "signals_on b tid = (case track_of b tid of None \<Rightarrow> [] | Some t \<Rightarrow> bt_signals t)"

definition buffer_stops_on :: "Builder \<Rightarrow> ident \<Rightarrow> BufferStop list" where
  "buffer_stops_on b tid = (case track_of b tid of None \<Rightarrow> [] | Some t \<Rightarrow> bt_buffer_stops t)"

text \<open>The objects of one track in a document, in document order.\<close>

definition on_track :: "ident \<Rightarrow> (ident \<times> 'a) list \<Rightarrow> 'a list" where
  "on_track tid xs = map snd (filter (\<lambda>p. fst p = tid) xs)"

section \<open>The infra scripts\<close>

text \<open>Running one step for each element of a list, in order.\<close>

fun for_each :: "'a list \<Rightarrow> ('a \<Rightarrow> Builder \<Rightarrow> build_error + Builder) \<Rightarrow> Builder \<Rightarrow> build_error + Builder" where
  "for_each [] step b = Inr b"
| "for_each (x # xs) step b = and_then (step x b) (for_each xs step)"

text \<open>
  circle\_infra.py: four tracks of length 200, a link from the end of \<open>track_d\<close> to the
  begin of \<open>track_a\<close>, and two point switches.
\<close>

definition circle_infra :: "build_error + Document" where
  "circle_infra =
     and_then (add_track_section 200 (Some ''track_a'') Builder_new) (\<lambda>(track_a, b).
     and_then (add_track_section 200 (Some ''track_b'') b) (\<lambda>(track_b, b).
     and_then (add_track_section 200 (Some ''track_c'') b) (\<lambda>(track_c, b).
     and_then (add_track_section 200 (Some ''track_d'') b) (\<lambda>(track_d, b).
     and_then (add_link (track_end track_d) (track_begin track_a) b) (\<lambda>b.
     and_then (add_point_switch (track_end track_a) (track_begin track_b) (track_begin track_c)
                 (Some ''switch1'') b) (\<lambda>b.
     and_then (add_point_switch (track_begin track_d) (track_end track_b) (track_end track_c)
                 (Some ''switch2'') b) (\<lambda>b.
     build process_start b)))))))"

text \<open>
  one\_line.py. \<^verbatim>\<open>[builder.add_track_section(length=1000) for _ in range(10)]\<close>, each track
  with the flag \<^verbatim>\<open>inverted = (i % 2 == 1)\<close>.
\<close>

fun add_track_sections :: "nat \<Rightarrow> int \<Rightarrow> Builder \<Rightarrow> build_error + (TrackHandle list \<times> Builder)" where
  "add_track_sections 0 len b = Inr ([], b)"
| "add_track_sections (Suc n) len b =
     and_then (add_track_section len None b) (\<lambda>(t, b1).
     and_then (add_track_sections n len b1) (\<lambda>(ts, b2). Inr (t # ts, b2)))"

definition with_inverted :: "TrackHandle list \<Rightarrow> (nat \<times> TrackHandle \<times> bool) list" where
  "with_inverted ts = map (\<lambda>(i, t). (i, t, i mod 2 = 1)) (zip [0..<length ts] ts)"

text \<open>The loop that sets the coordinates of both ends of each track.\<close>

definition one_line_coords :: "(nat \<times> TrackHandle \<times> bool) \<Rightarrow> Builder \<Rightarrow> build_error + Builder" where
  "one_line_coords = (\<lambda>(i, t, inverted) b.
     if inverted
     then Inr (set_coords (track_end t) (1000 * (real i + 1)) 0
                (set_coords (track_begin t) (1000 * real i) 0 b))
     else Inr (set_coords (track_begin t) (1000 * (real i + 1)) 0
                (set_coords (track_end t) (1000 * real i) 0 b)))"

text \<open>The loop over \<^verbatim>\<open>zip(tracks[:-1], tracks[1:])\<close> that links neighbours.\<close>

definition one_line_link ::
  "((nat \<times> TrackHandle \<times> bool) \<times> (nat \<times> TrackHandle \<times> bool)) \<Rightarrow> Builder \<Rightarrow> build_error + Builder" where
  "one_line_link = (\<lambda>((i, first_track, first_inverted), (j, second_track, second_inverted)) b.
     add_link
       (if first_inverted then track_begin first_track else track_end first_track)
       (if second_inverted then track_end second_track else track_begin second_track) b)"

text \<open>
  The loop body of lines 49 to 62: one detector at 500, then two route-delimiter signals
  at the detector's position, one per direction, each with one BAL logical signal.
\<close>

definition one_line_objects :: "(nat \<times> TrackHandle \<times> bool) \<Rightarrow> Builder \<Rightarrow> build_error + Builder" where
  "one_line_objects = (\<lambda>(i, t, inverted) b.
     and_then (add_detector t 500 None b) (\<lambda>(detector, b).
     and_then (add_signal t (det_position detector) START_TO_STOP True None None b) (\<lambda>(signal, b).
     and_then (add_logical_signal signal ''BAL'' [(''Nf'', ''true'')] b) (\<lambda>b.
     and_then (add_signal t (det_position detector) STOP_TO_START True None None b) (\<lambda>(signal, b).
     add_logical_signal signal ''BAL'' [(''Nf'', ''true'')] b)))))"

definition one_line :: "build_error + Document" where
  "one_line =
     and_then (add_track_sections 10 1000 Builder_new) (\<lambda>(base_tracks, b).
     and_then (for_each (with_inverted base_tracks) one_line_coords b) (\<lambda>b.
     and_then (for_each (zip (butlast (with_inverted base_tracks)) (tl (with_inverted base_tracks)))
                 one_line_link b) (\<lambda>b.
     and_then (for_each (with_inverted base_tracks) one_line_objects b) (\<lambda>b.
     build process_start b))))"

text \<open>Counting what a document holds.\<close>

definition doc_counts :: "Document \<Rightarrow> nat \<times> nat \<times> nat \<times> nat \<times> nat" where
  "doc_counts d =
     (length (doc_track_sections d), length (doc_detectors d), length (doc_signals d),
      length (doc_links d), length (doc_switches d))"

definition doc_endpoints :: "Document \<Rightarrow> Endpoint list" where
  "doc_endpoints d = concat (map (\<lambda>(i, len). [(i, BEGIN), (i, END)]) (doc_track_sections d))"

definition doc_consumers :: "Document \<Rightarrow> Endpoint \<Rightarrow> nat" where
  "doc_consumers d ep = count_list (consumed (doc_links d) (doc_switches d)) ep"

definition signal_kinds :: "Document \<Rightarrow> string list list" where
  "signal_kinds d = map (\<lambda>(tid, s). map ls_signaling_system (sig_logical_signals s)) (doc_signals d)"

definition signal_flags :: "Document \<Rightarrow> (bool \<times> (string \<times> string) list list) list" where
  "signal_flags d =
     map (\<lambda>(tid, s). (sig_is_route_delimiter s, map ls_settings (sig_logical_signals s)))
       (doc_signals d)"

definition endpoint_uses :: "Document \<Rightarrow> nat list" where
  "endpoint_uses d = map (doc_consumers d) (doc_endpoints d)"

text \<open>
  The shapes the tracks of one\_line.py take: a track as \<^verbatim>\<open>add_track_section\<close> leaves it,
  the handle the script holds for it, and the track once the loop body of lines 49 to 62
  has run for it.
\<close>

definition empty_track :: "int \<Rightarrow> nat \<Rightarrow> BuilderTrack" where
  "empty_track len i = \<lparr>bt_id = Auto KTrackSection i, bt_length = len, bt_detectors = [],
     bt_signals = [], bt_buffer_stops = []\<rparr>"

definition handle :: "nat \<Rightarrow> TrackHandle" where
  "handle i = \<lparr>th_id = Auto KTrackSection i, th_length = 1000\<rparr>"

definition full_track :: "int \<Rightarrow> nat \<Rightarrow> BuilderTrack" where
  "full_track len i = \<lparr>bt_id = Auto KTrackSection i, bt_length = len,
     bt_detectors = [\<lparr>det_id = Auto KDetector i, det_position = 500\<rparr>],
     bt_signals =
       [\<lparr>sig_id = Auto KSignal (2 * i), sig_position = 500, sig_direction = START_TO_STOP,
         sig_is_route_delimiter = True, sig_sight_distance = None,
         sig_logical_signals = [\<lparr>ls_signaling_system = ''BAL'', ls_settings = [(''Nf'', ''true'')],
            ls_default_parameters = [], ls_conditional_parameters = []\<rparr>]\<rparr>,
        \<lparr>sig_id = Auto KSignal (2 * i + 1), sig_position = 500, sig_direction = STOP_TO_START,
         sig_is_route_delimiter = True, sig_sight_distance = None,
         sig_logical_signals = [\<lparr>ls_signaling_system = ''BAL'', ls_settings = [(''Nf'', ''true'')],
            ls_default_parameters = [], ls_conditional_parameters = []\<rparr>]\<rparr>],
     bt_buffer_stops = []\<rparr>"

section \<open>Decimal rendering is injective\<close>

lemma digit_char_inj: "a < 10 \<Longrightarrow> b < 10 \<Longrightarrow> digit_char a = digit_char b \<Longrightarrow> a = b"
proof -
  assume a: "a < 10" and b: "b < 10" and e: "digit_char a = digit_char b"
  have A: "a \<in> {0,1,2,3,4,5,6,7,8,9}" using a by auto
  have B: "b \<in> {0,1,2,3,4,5,6,7,8,9}" using b by auto
  show ?thesis using A B e unfolding digit_char_def by auto
qed

lemma str_nat_nonempty: "str_nat n \<noteq> []"
  by (subst str_nat.simps) simp

lemma str_nat_length_ge2: "\<not> n < 10 \<Longrightarrow> 2 \<le> length (str_nat n)"
proof -
  assume "\<not> n < 10"
  then have "str_nat n = str_nat (n div 10) @ [digit_char (n mod 10)]"
    by (subst str_nat.simps) simp
  moreover have "1 \<le> length (str_nat (n div 10))"
    using str_nat_nonempty [of "n div 10"] by (cases "str_nat (n div 10)") auto
  ultimately show ?thesis by simp
qed

lemma str_nat_inj: "str_nat n = str_nat m \<Longrightarrow> n = m"
proof (induction n arbitrary: m rule: str_nat.induct)
  case (1 n)
  show ?case
  proof (cases "n < 10")
    case True
    then have n1: "str_nat n = [digit_char n]" by (subst str_nat.simps) simp
    show ?thesis
    proof (cases "m < 10")
      case True
      then have "str_nat m = [digit_char m]" by (subst str_nat.simps) simp
      with n1 "1.prems" have "digit_char n = digit_char m" by simp
      with \<open>n < 10\<close> True show ?thesis by (rule digit_char_inj)
    next
      case False
      from str_nat_length_ge2 [OF False] n1 "1.prems" show ?thesis by simp
    qed
  next
    case False
    then have n2: "str_nat n = str_nat (n div 10) @ [digit_char (n mod 10)]"
      by (subst str_nat.simps) simp
    show ?thesis
    proof (cases "m < 10")
      case True
      then have "str_nat m = [digit_char m]" by (subst str_nat.simps) simp
      with str_nat_length_ge2 [OF False] "1.prems" show ?thesis by simp
    next
      case mF: False
      then have m2: "str_nat m = str_nat (m div 10) @ [digit_char (m mod 10)]"
        by (subst str_nat.simps) simp
      from n2 m2 "1.prems" have pre: "str_nat (n div 10) = str_nat (m div 10)"
        and dig: "digit_char (n mod 10) = digit_char (m mod 10)" by simp_all
      from "1.IH" [OF False pre] have d: "n div 10 = m div 10" .
      have "n mod 10 = m mod 10" using dig by (intro digit_char_inj) simp_all
      with d show ?thesis by (metis div_mult_mod_eq)
    qed
  qed
qed

lemma digit_char_not_minus: "d < 10 \<Longrightarrow> digit_char d \<noteq> CHR ''-''"
proof -
  assume a: "d < 10"
  have A: "d \<in> {0,1,2,3,4,5,6,7,8,9}" using a by auto
  show ?thesis using A unfolding digit_char_def by auto
qed

lemma str_nat_hd: "hd (str_nat n) \<noteq> CHR ''-''"
proof (induction n rule: str_nat.induct)
  case (1 n)
  show ?case
  proof (cases "n < 10")
    case True
    then have "str_nat n = [digit_char n]" by (subst str_nat.simps) simp
    with True digit_char_not_minus show ?thesis by simp
  next
    case False
    then have "str_nat n = str_nat (n div 10) @ [digit_char (n mod 10)]"
      by (subst str_nat.simps) simp
    with "1.IH" [OF False] str_nat_nonempty [of "n div 10"] show ?thesis by simp
  qed
qed

lemma str_int_inj: "str_int i = str_int j \<Longrightarrow> i = j"
proof -
  assume e: "str_int i = str_int j"
  have neg_pos: "\<And>a b. CHR ''-'' # str_nat a \<noteq> str_nat b"
  proof
    fix a b assume "CHR ''-'' # str_nat a = str_nat b"
    then have "hd (str_nat b) = CHR ''-''" by (metis list.sel(1))
    with str_nat_hd show False by blast
  qed
  show ?thesis
  proof (cases "i < 0")
    case True
    show ?thesis
    proof (cases "j < 0")
      case jT: True
      with True e have "str_nat (nat (- i)) = str_nat (nat (- j))" by (simp add: str_int_def)
      then have "nat (- i) = nat (- j)" by (rule str_nat_inj)
      with True jT show ?thesis by simp
    next
      case False
      with True e neg_pos show ?thesis by (simp add: str_int_def)
    qed
  next
    case False
    show ?thesis
    proof (cases "j < 0")
      case True
      with False e neg_pos [of "nat (- j)" "nat i"] show ?thesis by (simp add: str_int_def)
    next
      case jF: False
      with False e have "str_nat (nat i) = str_nat (nat j)" by (simp add: str_int_def)
      then have "nat i = nat j" by (rule str_nat_inj)
      with False jF show ?thesis by simp
    qed
  qed
qed

section \<open>The label counter\<close>

lemma init_unlabelled_label:
  "label (fst (SpeedSection_init sl tags ranges None routes p)) =
     ''speed_section.'' @ str_int (SpeedSection_index p)"
  by (simp add: SpeedSection_init_def speed_section_id_def new_dict_def new_list_def
      split: option.splits prod.splits)

lemma init_unlabelled_index:
  "SpeedSection_index (snd (SpeedSection_init sl tags ranges None routes p)) =
     SpeedSection_index p + 1"
  by (simp add: SpeedSection_init_def speed_section_id_def new_dict_def new_list_def
      split: option.splits prod.splits)

lemma init_labelled_label:
  "label (fst (SpeedSection_init sl tags ranges (Some l) routes p)) = l"
  by (simp add: SpeedSection_init_def new_dict_def new_list_def
      split: option.splits prod.splits)

lemma init_labelled_index:
  "SpeedSection_index (snd (SpeedSection_init sl tags ranges (Some l) routes p)) =
     SpeedSection_index p"
  by (simp add: SpeedSection_init_def new_dict_def new_list_def
      split: option.splits prod.splits)

lemma create_all_Cons:
  "map label (fst (create_all ((sl, lbl) # rest) p)) =
     label (fst (SpeedSection_init sl None None lbl None p)) #
     map label (fst (create_all rest (snd (SpeedSection_init sl None None lbl None p))))"
  by (simp add: split_beta Let_def)

lemma create_all_labels_by_index:
  "SpeedSection_index p = SpeedSection_index q \<Longrightarrow>
     map label (fst (create_all scr p)) = map label (fst (create_all scr q))"
proof (induction scr arbitrary: p q)
  case Nil
  show ?case by simp
next
  case (Cons c rest)
  obtain sl lbl where c: "c = (sl, lbl)" by (cases c)
  show ?case
  proof (cases lbl)
    case None
    have "SpeedSection_index (snd (SpeedSection_init sl None None None None p)) =
          SpeedSection_index (snd (SpeedSection_init sl None None None None q))"
      using Cons.prems by (simp add: init_unlabelled_index)
    from Cons.IH [OF this] Cons.prems show ?thesis
      unfolding c None create_all_Cons by (simp add: init_unlabelled_label)
  next
    case (Some l)
    have "SpeedSection_index (snd (SpeedSection_init sl None None (Some l) None p)) =
          SpeedSection_index (snd (SpeedSection_init sl None None (Some l) None q))"
      using Cons.prems by (simp add: init_labelled_index)
    from Cons.IH [OF this] show ?thesis
      unfolding c Some create_all_Cons by (simp add: init_labelled_label)
  qed
qed

lemma unlabelled_labels:
  "map label (fst (create_all (unlabelled sls) p)) =
     map (\<lambda>i. ''speed_section.'' @ str_int (SpeedSection_index p + int i)) [0..<length sls]"
proof (induction sls arbitrary: p)
  case Nil
  show ?case by (simp add: unlabelled_def)
next
  case (Cons sl sls)
  have u: "unlabelled (sl # sls) = (sl, None) # unlabelled sls" by (simp add: unlabelled_def)
  have shift: "[0..<length (sl # sls)] = 0 # map Suc [0..<length sls]"
    by (simp add: upt_conv_Cons map_Suc_upt del: upt_Suc)
  show ?case
    unfolding u create_all_Cons shift
    by (simp add: Cons.IH init_unlabelled_label init_unlabelled_index add.assoc o_def)
qed

lemma labels_distinct:
  "distinct (map (\<lambda>i. ''speed_section.'' @ str_int (n + int i)) [0..<k])"
proof -
  have "inj_on (\<lambda>i. ''speed_section.'' @ str_int (n + int i)) (set [0..<k])"
  proof (rule inj_onI)
    fix x y assume "''speed_section.'' @ str_int (n + int x) = ''speed_section.'' @ str_int (n + int y)"
    then have "str_int (n + int x) = str_int (n + int y)" by simp
    then have "n + int x = n + int y" by (rule str_int_inj)
    then show "x = y" by simp
  qed
  then show ?thesis by (simp add: distinct_map)
qed

lemma str_int_of_nat: "str_int (int i) = str_nat i"
  by (simp add: str_int_def)

text \<open>
  Claim C2. \<^verbatim>\<open>SpeedSection.reset_index()\<close> sets the speed-section counter to 0. After a
  reset, \<open>k\<close> creations without an explicit label receive the labels
  \<^verbatim>\<open>speed_section.0\<close> up to \<^verbatim>\<open>speed_section.<k-1>\<close> in this order; the labels of a
  script run after a reset do not depend on the state before the reset, so two runs of one
  script produce the same identifiers; and the generated labels of one run are pairwise
  distinct.
\<close>

theorem reset_index_reproducible:
  "SpeedSection_index (reset_index p) = 0 \<and>
   map label (fst (create_all (unlabelled sls) (reset_index p))) =
     map (\<lambda>i. ''speed_section.'' @ str_nat i) [0..<length sls] \<and>
   map label (fst (create_all scr (reset_index p))) =
     map label (fst (create_all scr (reset_index q))) \<and>
   distinct (map label (fst (create_all (unlabelled sls) (reset_index p))))"
proof -
  have r: "SpeedSection_index (reset_index p) = 0" "SpeedSection_index (reset_index q) = 0"
    by (simp_all add: reset_index_def)
  have l: "map label (fst (create_all (unlabelled sls) (reset_index p))) =
     map (\<lambda>i. ''speed_section.'' @ str_nat i) [0..<length sls]"
    by (simp add: unlabelled_labels r str_int_of_nat)
  have d: "distinct (map label (fst (create_all (unlabelled sls) (reset_index p))))"
    unfolding unlabelled_labels by (rule labels_distinct)
  have s: "map label (fst (create_all scr (reset_index p))) =
     map label (fst (create_all scr (reset_index q)))"
    by (rule create_all_labels_by_index) (simp add: r)
  from r(1) l s d show ?thesis by blast
qed

section \<open>Builders, and ranges on speed sections\<close>

lemma str_int_zero: "str_int 0 = ''0''"
  by (simp add: str_int_def str_nat.simps digit_char_def)

lemma add_speed_section_label:
  "label (fst (fst (add_speed_section b sl None p))) =
     ''speed_section.'' @ str_int (SpeedSection_index p)"
  using init_unlabelled_label [of sl None None None p]
  by (simp add: add_speed_section_def split_beta)

lemma add_speed_section_index:
  "SpeedSection_index (snd (add_speed_section b sl None p)) = SpeedSection_index p + 1"
  using init_unlabelled_index [of sl None None None p]
  by (simp add: add_speed_section_def split_beta)

text \<open>
  Claim C1, as amended. The counter behind default labels is an attribute of the class,
  shared by the whole process: whichever builder creates a speed section without an
  explicit label, the label is \<^verbatim>\<open>speed_section.<n>\<close> for the current value \<open>n\<close> of that
  counter, and the counter moves on by one. A builder's first unlabelled speed section is
  \<^verbatim>\<open>speed_section.0\<close> exactly when the counter stands at 0, that is when no default label
  was handed out in the process since its start or the last reset.
\<close>

theorem default_label_from_process_counter:
  "label (fst (fst (add_speed_section b sl None p))) =
     ''speed_section.'' @ str_int (SpeedSection_index p) \<and>
   SpeedSection_index (snd (add_speed_section b sl None p)) = SpeedSection_index p + 1 \<and>
   (label (fst (fst (add_speed_section b sl None p))) = ''speed_section.0''
      \<longleftrightarrow> SpeedSection_index p = 0)"
proof -
  have "(''speed_section.'' @ str_int (SpeedSection_index p) = ''speed_section.0'')
          \<longleftrightarrow> SpeedSection_index p = 0"
  proof
    assume "''speed_section.'' @ str_int (SpeedSection_index p) = ''speed_section.0''"
    then have "str_int (SpeedSection_index p) = str_int 0" by (simp add: str_int_zero)
    then show "SpeedSection_index p = 0" by (rule str_int_inj)
  next
    assume "SpeedSection_index p = 0"
    then show "''speed_section.'' @ str_int (SpeedSection_index p) = ''speed_section.0''"
      by (simp add: str_int_zero)
  qed
  then show ?thesis by (simp add: add_speed_section_label add_speed_section_index)
qed

text \<open>
  Claim C1 as stated fails: a fresh builder whose first unlabelled speed section is created
  after another builder has allocated one default label receives \<^verbatim>\<open>speed_section.1\<close>.
\<close>

theorem second_builder_sees_first_counterexample:
  "label (fst (fst (add_speed_section InfraBuilder_init 30 None
      (snd (add_speed_section InfraBuilder_init 25 None process_start))))) = ''speed_section.1'' \<and>
   label (fst (fst (add_speed_section InfraBuilder_init 30 None
      (snd (add_speed_section InfraBuilder_init 25 None process_start))))) \<noteq> ''speed_section.0''"
  by (simp add: add_speed_section_label add_speed_section_index process_start_def
      str_int_def str_nat.simps digit_char_def)

section \<open>Ranges on speed sections\<close>










section \<open>Default containers\<close>

lemma init_defaults_shape:
  "SpeedSection_init sl None None lbl routes p = (s, p') \<Longrightarrow>
     speed_limit_by_tag s = next_ref p \<and> track_ranges s = next_ref p + 1 \<and>
     speed_limit s = sl \<and> on_routes s = routes \<and>
     next_ref p' = next_ref p + 2 \<and>
     list_objs p' = (list_objs p)(next_ref p + 1 \<mapsto> []) \<and>
     dict_objs p' = (dict_objs p)(next_ref p \<mapsto> Map.empty)"
  by (cases lbl)
     (auto simp add: SpeedSection_init_def speed_section_id_def new_dict_def new_list_def)

lemma default_containers_back_to_back:
  assumes i1: "SpeedSection_init sl1 None None lbl1 routes1 p = (s1, p1)"
      and i2: "SpeedSection_init sl2 None None lbl2 routes2 p1 = (s2, p2)"
  shows "track_ranges s1 \<noteq> track_ranges s2 \<and>
         speed_limit_by_tag s1 \<noteq> speed_limit_by_tag s2 \<and>
         next_ref p \<le> track_ranges s1 \<and> next_ref p \<le> speed_limit_by_tag s1 \<and>
         next_ref p1 \<le> track_ranges s2 \<and> next_ref p1 \<le> speed_limit_by_tag s2 \<and>
         list_objs p2 (track_ranges s1) = Some [] \<and>
         list_objs p2 (track_ranges s2) = Some [] \<and>
         dict_objs p2 (speed_limit_by_tag s1) = Some Map.empty \<and>
         dict_objs p2 (speed_limit_by_tag s2) = Some Map.empty \<and>
         ranges_of (add_track_range s1 trk b e d p2) s1 =
           [\<lparr>range_begin = b, range_end = e, track = trk, applicable_directions = d\<rparr>] \<and>
         ranges_of (add_track_range s1 trk b e d p2) s2 = [] \<and>
         ranges_of (add_track_range s2 trk b e d p2) s1 = [] \<and>
         list_objs (add_track_range s1 trk b e d p2) =
           (list_objs p2)(track_ranges s1 \<mapsto>
              [\<lparr>range_begin = b, range_end = e, track = trk, applicable_directions = d\<rparr>]) \<and>
         dict_objs (add_track_range s1 trk b e d p2) = dict_objs p2 \<and>
         SpeedSection_index (add_track_range s1 trk b e d p2) = SpeedSection_index p2 \<and>
         next_ref (add_track_range s1 trk b e d p2) = next_ref p2"
proof -
  let ?n = "next_ref p"
  let ?r = "\<lparr>range_begin = b, range_end = e, track = trk, applicable_directions = d\<rparr>"
  note a = init_defaults_shape [OF i1]
  note c = init_defaults_shape [OF i2]
  have d1: "speed_limit_by_tag s1 = ?n" and t1: "track_ranges s1 = Suc ?n"
    using a by simp_all
  have n1: "next_ref p1 = Suc (Suc ?n)" using a by simp
  have d2: "speed_limit_by_tag s2 = Suc (Suc ?n)" and t2: "track_ranges s2 = Suc (Suc (Suc ?n))"
    using c n1 by simp_all
  have neq: "track_ranges s1 \<noteq> track_ranges s2" "speed_limit_by_tag s1 \<noteq> speed_limit_by_tag s2"
    by (simp_all add: d1 d2 t1 t2)
  have fresh: "next_ref p \<le> track_ranges s1" "next_ref p \<le> speed_limit_by_tag s1"
    "next_ref p1 \<le> track_ranges s2" "next_ref p1 \<le> speed_limit_by_tag s2"
    by (simp_all add: d1 d2 t1 t2 n1)
  have L1: "list_objs p2 (track_ranges s1) = Some []"
    using a c by (simp add: t1 t2 n1)
  have L2: "list_objs p2 (track_ranges s2) = Some []"
    using c by (simp add: t2 n1)
  have D1: "dict_objs p2 (speed_limit_by_tag s1) = Some Map.empty"
    using a c by (simp add: d1 d2 n1)
  have D2: "dict_objs p2 (speed_limit_by_tag s2) = Some Map.empty"
    using c by (simp add: d2 n1)
  have A1: "add_track_range s1 trk b e d p2 =
      p2\<lparr>list_objs := (list_objs p2)(track_ranges s1 \<mapsto> [?r])\<rparr>"
    by (simp add: add_track_range_def L1)
  have A2: "add_track_range s2 trk b e d p2 =
      p2\<lparr>list_objs := (list_objs p2)(track_ranges s2 \<mapsto> [?r])\<rparr>"
    by (simp add: add_track_range_def L2)
  have R1: "ranges_of (add_track_range s1 trk b e d p2) s1 = [?r]"
    by (simp add: A1 ranges_of_def)
  have R2: "ranges_of (add_track_range s1 trk b e d p2) s2 = []"
    using neq(1) by (simp add: A1 ranges_of_def L2)
  have R3: "ranges_of (add_track_range s2 trk b e d p2) s1 = []"
    using neq(1) by (simp add: A2 ranges_of_def L1)
  have F: "list_objs (add_track_range s1 trk b e d p2) =
      (list_objs p2)(track_ranges s1 \<mapsto> [?r])"
    "dict_objs (add_track_range s1 trk b e d p2) = dict_objs p2"
    "SpeedSection_index (add_track_range s1 trk b e d p2) = SpeedSection_index p2"
    "next_ref (add_track_range s1 trk b e d p2) = next_ref p2"
    by (simp_all add: A1)
  from neq fresh L1 L2 D1 D2 R1 R2 R3 F show ?thesis by blast
qed


lemma add_track_range_frame:
  "dict_objs (add_track_range s trk b e d q) = dict_objs q \<and>
   SpeedSection_index (add_track_range s trk b e d q) = SpeedSection_index q \<and>
   next_ref (add_track_range s trk b e d q) = next_ref q \<and>
   (\<forall>r. r \<noteq> track_ranges s \<longrightarrow> list_objs (add_track_range s trk b e d q) r = list_objs q r)"
  by (cases "list_objs q (track_ranges s)") (simp_all add: add_track_range_def)

lemma add_track_range_other:
  "track_ranges s \<noteq> track_ranges s' \<Longrightarrow>
   ranges_of (add_track_range s trk b e d q) s' = ranges_of q s'"
  using add_track_range_frame [of s trk b e d q] by (simp add: ranges_of_def)

text \<open>
  Claim C8. Two speed sections created without explicit \<^verbatim>\<open>speed_limit_by_tag\<close> and
  \<^verbatim>\<open>track_ranges\<close> arguments never share a container, whenever in the life of the
  process each is created: each receives a list and a dict of its own, newly allocated and
  empty. In every later state, appending a range to one through \<^verbatim>\<open>add_track_range\<close>
  changes the list object of that speed section and nothing else: the ranges of the other
  speed section, every other list, every dict, the label counter and the allocator stay as
  they were.
\<close>

theorem default_containers_not_shared:
  assumes i1: "SpeedSection_init sl1 None None lbl1 routes1 p = (s1, p1)"
      and later: "next_ref p1 \<le> next_ref p'"
      and i2: "SpeedSection_init sl2 None None lbl2 routes2 p' = (s2, p2)"
  shows "track_ranges s1 \<noteq> track_ranges s2 \<and>
         speed_limit_by_tag s1 \<noteq> speed_limit_by_tag s2 \<and>
         next_ref p \<le> track_ranges s1 \<and> next_ref p \<le> speed_limit_by_tag s1 \<and>
         next_ref p' \<le> track_ranges s2 \<and> next_ref p' \<le> speed_limit_by_tag s2 \<and>
         list_objs p1 (track_ranges s1) = Some [] \<and>
         dict_objs p1 (speed_limit_by_tag s1) = Some Map.empty \<and>
         list_objs p2 (track_ranges s2) = Some [] \<and>
         dict_objs p2 (speed_limit_by_tag s2) = Some Map.empty \<and>
         ranges_of (add_track_range s1 trk b e d q) s2 = ranges_of q s2 \<and>
         ranges_of (add_track_range s2 trk b e d q) s1 = ranges_of q s1 \<and>
         (list_objs q (track_ranges s1) = Some rs \<longrightarrow>
            ranges_of (add_track_range s1 trk b e d q) s1 =
              rs @ [\<lparr>range_begin = b, range_end = e, track = trk, applicable_directions = d\<rparr>]) \<and>
         (\<forall>r. r \<noteq> track_ranges s1 \<longrightarrow>
            list_objs (add_track_range s1 trk b e d q) r = list_objs q r) \<and>
         dict_objs (add_track_range s1 trk b e d q) = dict_objs q \<and>
         SpeedSection_index (add_track_range s1 trk b e d q) = SpeedSection_index q \<and>
         next_ref (add_track_range s1 trk b e d q) = next_ref q \<and>
         (p' = p1 \<longrightarrow>
            list_objs p2 (track_ranges s1) = Some [] \<and>
            dict_objs p2 (speed_limit_by_tag s1) = Some Map.empty \<and>
            ranges_of (add_track_range s1 trk b e d p2) s1 =
              [\<lparr>range_begin = b, range_end = e, track = trk, applicable_directions = d\<rparr>] \<and>
            ranges_of (add_track_range s1 trk b e d p2) s2 = [] \<and>
            ranges_of (add_track_range s2 trk b e d p2) s1 = [])"
proof -
  note a = init_defaults_shape [OF i1]
  note c = init_defaults_shape [OF i2]
  have d1: "speed_limit_by_tag s1 = next_ref p" and t1: "track_ranges s1 = Suc (next_ref p)"
    using a by simp_all
  have n1: "next_ref p1 = Suc (Suc (next_ref p))" using a by simp
  have d2: "speed_limit_by_tag s2 = next_ref p'" and t2: "track_ranges s2 = Suc (next_ref p')"
    using c by simp_all
  have neq: "track_ranges s1 \<noteq> track_ranges s2" "speed_limit_by_tag s1 \<noteq> speed_limit_by_tag s2"
    using later by (simp_all add: d1 d2 t1 t2 n1)
  have fresh: "next_ref p \<le> track_ranges s1" "next_ref p \<le> speed_limit_by_tag s1"
    "next_ref p' \<le> track_ranges s2" "next_ref p' \<le> speed_limit_by_tag s2"
    by (simp_all add: d1 d2 t1 t2)
  have E1: "list_objs p1 (track_ranges s1) = Some []"
    "dict_objs p1 (speed_limit_by_tag s1) = Some Map.empty"
    using a by (simp_all add: d1 t1)
  have E2: "list_objs p2 (track_ranges s2) = Some []"
    "dict_objs p2 (speed_limit_by_tag s2) = Some Map.empty"
    using c by (simp_all add: d2 t2)
  have O1: "ranges_of (add_track_range s1 trk b e d q) s2 = ranges_of q s2"
    using neq(1) by (rule add_track_range_other)
  have O2: "ranges_of (add_track_range s2 trk b e d q) s1 = ranges_of q s1"
    using neq(1) [symmetric] by (rule add_track_range_other)
  have own: "list_objs q (track_ranges s1) = Some rs \<longrightarrow>
      ranges_of (add_track_range s1 trk b e d q) s1 =
        rs @ [\<lparr>range_begin = b, range_end = e, track = trk, applicable_directions = d\<rparr>]"
    by (simp add: add_track_range_def ranges_of_def)
  note F = add_track_range_frame [of s1 trk b e d q]
  have special: "p' = p1 \<longrightarrow>
      list_objs p2 (track_ranges s1) = Some [] \<and>
      dict_objs p2 (speed_limit_by_tag s1) = Some Map.empty \<and>
      ranges_of (add_track_range s1 trk b e d p2) s1 =
        [\<lparr>range_begin = b, range_end = e, track = trk, applicable_directions = d\<rparr>] \<and>
      ranges_of (add_track_range s1 trk b e d p2) s2 = [] \<and>
      ranges_of (add_track_range s2 trk b e d p2) s1 = []"
  proof
    assume "p' = p1"
    with i2 have "SpeedSection_init sl2 None None lbl2 routes2 p1 = (s2, p2)" by simp
    from default_containers_back_to_back [OF i1 this, of trk b e d] show
      "list_objs p2 (track_ranges s1) = Some [] \<and>
       dict_objs p2 (speed_limit_by_tag s1) = Some Map.empty \<and>
       ranges_of (add_track_range s1 trk b e d p2) s1 =
         [\<lparr>range_begin = b, range_end = e, track = trk, applicable_directions = d\<rparr>] \<and>
       ranges_of (add_track_range s1 trk b e d p2) s2 = [] \<and>
       ranges_of (add_track_range s2 trk b e d p2) s1 = []"
      by blast
  qed
  from neq fresh E1 E2 O1 O2 own F special show ?thesis by blast
qed

theorem default_containers_not_shared_witness:
  "track_ranges (fst (SpeedSection_init 30 None None None None process_start)) \<noteq>
   track_ranges (fst (SpeedSection_init 50 None None None None (snd (SpeedSection_init 30 None None None None process_start)))) \<and>
   ranges_of (add_track_range (fst (SpeedSection_init 30 None None None None process_start)) \<lparr>track_label = ''t_takeover'', track_length = 2100\<rparr> 0 10 BOTH
      (add_track_range (fst (SpeedSection_init 30 None None None None process_start)) \<lparr>track_label = ''t_takeover'', track_length = 2100\<rparr> 1 2 BOTH (add_track_range (fst (SpeedSection_init 50 None None None None (snd (SpeedSection_init 30 None None None None process_start)))) \<lparr>track_label = ''t_takeover'', track_length = 2100\<rparr> 5 7 BOTH (snd (SpeedSection_init 50 None None None None (snd (SpeedSection_init 30 None None None None process_start)))))))
     (fst (SpeedSection_init 50 None None None None (snd (SpeedSection_init 30 None None None None process_start)))) =
   [\<lparr>range_begin = 5, range_end = 7, track = \<lparr>track_label = ''t_takeover'', track_length = 2100\<rparr>, applicable_directions = BOTH\<rparr>]"
proof -
  let ?s1 = "(fst (SpeedSection_init 30 None None None None process_start))"
  let ?p1 = "(snd (SpeedSection_init 30 None None None None process_start))"
  let ?s2 = "(fst (SpeedSection_init 50 None None None None (snd (SpeedSection_init 30 None None None None process_start))))"
  let ?p2 = "(snd (SpeedSection_init 50 None None None None (snd (SpeedSection_init 30 None None None None process_start))))"
  let ?t = "\<lparr>track_label = ''t_takeover'', track_length = 2100\<rparr>"
  let ?q = "add_track_range ?s2 ?t 5 7 BOTH ?p2"
  let ?q1 = "add_track_range ?s1 ?t 1 2 BOTH ?q"
  have i1: "SpeedSection_init 30 None None None None process_start = (?s1, ?p1)" by simp
  have i2: "SpeedSection_init 50 None None None None ?p1 = (?s2, ?p2)" by simp
  have later: "next_ref ?p1 \<le> next_ref ?p1" by simp
  have base: "ranges_of ?q ?s2 = [\<lparr>range_begin = 5, range_end = 7, track = \<lparr>track_label = ''t_takeover'', track_length = 2100\<rparr>, applicable_directions = BOTH\<rparr>]"
    by (simp add: SpeedSection_init_def speed_section_id_def new_dict_def new_list_def
        process_start_def add_track_range_def ranges_of_def)
  from default_containers_not_shared [OF i1 later i2, of ?t 1 2 BOTH ?q]
  have step1: "ranges_of ?q1 ?s2 = ranges_of ?q ?s2" by blast
  from default_containers_not_shared [OF i1 later i2, of ?t 0 10 BOTH ?q1]
  have step2: "ranges_of (add_track_range ?s1 ?t 0 10 BOTH ?q1) ?s2 = ranges_of ?q1 ?s2"
    and ne: "track_ranges ?s1 \<noteq> track_ranges ?s2" by blast+
  from ne step2 step1 base show ?thesis by simp
qed
section \<open>The geometry helper keeps its points\<close>

lemma validate_float_kept: "kept_by_float c \<Longrightarrow> validate_float c = Inr (number_value c)"
  by (cases c) (simp_all add: kept_by_float_def validate_float_def number_value_def)

lemma validate_position_kept:
  "position_kept p \<Longrightarrow> validate_position p = Inr (map_Position number_value p)"
  by (cases p) (simp_all add: position_kept_def validate_float_kept)

lemma validate_positions_kept:
  "list_all position_kept ps \<Longrightarrow> validate_positions ps = Inr (map (map_Position number_value) ps)"
  by (induction ps) (simp_all add: validate_position_kept)

lemma float_kept: "kept_by_float (PyFloat f)"
  by (simp add: kept_by_float_def)

lemma make_geo_lines_kept:
  assumes "2 \<le> length points" and "list_all position_kept points"
  shows "\<exists>m line. make_geo_lines points = Inr m \<and> dom m = {''geo''} \<and>
           m ''geo'' = Some line \<and>
           coordinates line = map (map_Position number_value) points \<and>
           geo_type line = ''LineString''"
proof (intro exI conjI)
  let ?line = "\<lparr>geo_type = ''LineString'',
      coordinates = map (map_Position number_value) points, bbox = None\<rparr>"
  show "make_geo_lines points = Inr [''geo'' \<mapsto> ?line]"
    using assms(1)
    by (simp add: make_geo_lines_def make_geo_line_def LineString_init_def
        validate_positions_kept [OF assms(2)])
  show "dom [''geo'' \<mapsto> ?line] = {''geo''}" by simp
  show "[''geo'' \<mapsto> ?line] ''geo'' = Some ?line" by simp
  show "coordinates ?line = map (map_Position number_value) points" by simp
  show "geo_type ?line = ''LineString''" by simp
qed

lemma bit_length_le: "a < 2 ^ k \<Longrightarrow> bit_length a \<le> k"
proof (induction k arbitrary: a)
  case 0
  then show ?case by (simp add: bit_length.simps)
next
  case (Suc k)
  show ?case
  proof (cases "a = 0")
    case True
    then show ?thesis by (simp add: bit_length.simps)
  next
    case False
    from Suc.prems have "a div 2 < 2 ^ k" by simp
    from Suc.IH [OF this] False show ?thesis by (subst bit_length.simps) simp
  qed
qed

lemma bit_length_eq: "2 ^ k \<le> a \<Longrightarrow> a < 2 ^ Suc k \<Longrightarrow> bit_length a = Suc k"
proof (induction k arbitrary: a)
  case 0
  then have "a = 1" by simp
  then show ?case by (simp add: bit_length.simps)
next
  case (Suc k)
  from Suc.prems have lo: "2 ^ k \<le> a div 2" and hi: "a div 2 < 2 ^ Suc k" by simp_all
  from Suc.prems have "a \<noteq> 0" by auto
  with Suc.IH [OF lo hi] show ?case by (subst bit_length.simps) simp
qed

lemma small_int_kept:
  assumes "\<bar>n\<bar> < 2 ^ 53"
  shows "float_of_int n = Some (Finite (real_of_int n))"
proof -
  let ?a = "nat \<bar>n\<bar>"
  from assms have a: "?a < 2 ^ 53"
    by (metis nat_less_numeral_power_cancel_iff)
  from bit_length_le [OF a] have k: "bit_length ?a - 53 = 0" by simp
  have "(2::nat) ^ 53 < 2 ^ 1024" by (rule power_strict_increasing) simp_all
  with a have big: "\<not> 2 ^ 1024 \<le> ?a" by simp
  have val: "(if n < 0 then - real ?a else real ?a) = real_of_int n" by simp
  show ?thesis
    unfolding float_of_int_def Let_def k using big val by simp
qed

text \<open>
  Claim C9, as amended. For every coordinate sequence of at least two positions whose
  components are floats, or integers that conversion to a 64-bit float leaves unchanged,
  \<^verbatim>\<open>make_geo_lines(points)\<close> returns a mapping with exactly one key, \<^verbatim>\<open>"geo"\<close>, bound to
  a line string whose coordinates equal \<open>points\<close> element for element: no vertex is added,
  removed, reordered, modified or interpolated. Every float is such a component, and so is
  every integer of magnitude below \<open>2 ^ 53\<close>.
\<close>

theorem make_geo_lines_keeps_points:
  "(2 \<le> length points \<and> list_all position_kept points \<longrightarrow>
      (\<exists>m line. make_geo_lines points = Inr m \<and> dom m = {''geo''} \<and>
           m ''geo'' = Some line \<and>
           coordinates line = map (map_Position number_value) points \<and>
           geo_type line = ''LineString'')) \<and>
   kept_by_float (PyFloat f) \<and>
   (\<bar>n\<bar> < 2 ^ 53 \<longrightarrow> kept_by_float (PyInt n))"
proof (intro conjI impI)
  assume "2 \<le> length points \<and> list_all position_kept points"
  then show "\<exists>m line. make_geo_lines points = Inr m \<and> dom m = {''geo''} \<and>
           m ''geo'' = Some line \<and>
           coordinates line = map (map_Position number_value) points \<and>
           geo_type line = ''LineString''"
    using make_geo_lines_kept [of points] by simp
next
  show "kept_by_float (PyFloat f)" by (rule float_kept)
next
  assume "\<bar>n\<bar> < 2 ^ 53"
  then show "kept_by_float (PyInt n)" by (simp add: kept_by_float_def small_int_kept)
qed

theorem make_geo_lines_keeps_points_witness:
  "\<exists>m line. make_geo_lines [Position2D (PyFloat (Finite 0)) (PyFloat (Finite 0)),
        Position2D (PyInt 1000) (PyFloat (Finite 0)),
        Position2D (PyInt 1000) (PyFloat (Finite (5 / 2)))] = Inr m \<and>
      dom m = {''geo''} \<and> m ''geo'' = Some line \<and>
      coordinates line =
        [Position2D (Finite 0) (Finite 0), Position2D (Finite 1000) (Finite 0),
         Position2D (Finite 1000) (Finite (5 / 2))] \<and>
      geo_type line = ''LineString''"
proof -
  let ?points = "[Position2D (PyFloat (Finite 0)) (PyFloat (Finite 0)),
        Position2D (PyInt 1000) (PyFloat (Finite 0)),
        Position2D (PyInt 1000) (PyFloat (Finite (5 / 2)))]"
  note inst = make_geo_lines_keeps_points [of ?points _ 1000]
  have int: "kept_by_float (PyInt 1000)" using inst by simp
  have flt: "kept_by_float (PyFloat g)" for g
    using make_geo_lines_keeps_points [of ?points g 1000] by blast
  have len: "2 \<le> length ?points" by simp
  have kept: "list_all position_kept ?points" by (simp add: position_kept_def int flt)
  from inst len kept
  have "\<exists>m line. make_geo_lines ?points = Inr m \<and> dom m = {''geo''} \<and>
           m ''geo'' = Some line \<and>
           coordinates line = map (map_Position number_value) ?points \<and>
           geo_type line = ''LineString''"
    by blast
  then show ?thesis by (simp add: number_value_def)
qed

lemma float_of_int_rounds:
  "float_of_int 9007199254740993 = Some (Finite 9007199254740992)"
proof -
  have a: "nat \<bar>9007199254740993\<bar> = (9007199254740993::nat)" by simp
  have "bit_length 9007199254740993 = Suc 53"
    by (rule bit_length_eq) simp_all
  then have k: "bit_length 9007199254740993 - 53 = 1" by simp
  have "(2::nat) ^ 54 < 2 ^ 1024" by (rule power_strict_increasing) simp_all
  then have big: "\<not> (2::nat) ^ 1024 \<le> 9007199254740992" by simp
  show ?thesis
    unfolding float_of_int_def Let_def a k using big by simp
qed

lemma float_of_int_0: "float_of_int 0 = Some (Finite 0)"
  using small_int_kept [of 0] by simp

text \<open>
  Claim C9 as stated fails: the sequence with the vertex (9007199254740993, 0) is accepted,
  and the line string holds the vertex (9007199254740992.0, 0.0) instead.
\<close>

theorem make_geo_lines_rounds_counterexample:
  "make_geo_lines [Position2D (PyInt 9007199254740993) (PyInt 0), Position2D (PyInt 0) (PyInt 0)] =
     Inr [''geo'' \<mapsto> \<lparr>geo_type = ''LineString'',
        coordinates = [Position2D (Finite 9007199254740992) (Finite 0),
                       Position2D (Finite 0) (Finite 0)],
        bbox = None\<rparr>] \<and>
   Finite 9007199254740992 \<noteq> number_value (PyInt 9007199254740993)"
  by (simp add: make_geo_lines_def make_geo_line_def LineString_init_def validate_float_def
      float_of_int_rounds float_of_int_0 number_value_def)

lemma float_of_int_overflow: "float_of_int (10 ^ 309) = None"
proof -
  have a: "nat \<bar>10 ^ 309\<bar> = (10::nat) ^ 309" by (simp add: nat_power_eq)
  have bl: "bit_length (10 ^ 309) = Suc 1026"
    by (rule bit_length_eq) simp_all
  then have k: "bit_length (10 ^ 309) - 53 = 974" by simp
  have lo: "(2::nat) ^ 1026 \<le> 10 ^ 309" by simp
  have q: "(2::nat) ^ 52 \<le> 10 ^ 309 div 2 ^ 974"
  proof -
    have "(2::nat) ^ 52 * 2 ^ 974 \<le> 10 ^ 309" using lo by (simp add: power_add [symmetric])
    then show ?thesis by (simp add: less_eq_div_iff_mult_less_eq)
  qed
  have m: "\<And>q'. 10 ^ 309 div 2 ^ 974 \<le> q' \<Longrightarrow> (2::nat) ^ 1024 \<le> q' * 2 ^ 974"
  proof -
    fix q' :: nat assume "10 ^ 309 div 2 ^ 974 \<le> q'"
    with q have "(2::nat) ^ 52 \<le> q'" by simp
    then have "(2::nat) ^ 52 * 2 ^ 974 \<le> q' * 2 ^ 974" by (rule mult_le_mono1)
    moreover have "(2::nat) ^ 1024 \<le> 2 ^ 52 * 2 ^ 974" by (simp add: power_add [symmetric])
    ultimately show "(2::nat) ^ 1024 \<le> q' * 2 ^ 974" by (rule le_trans [rotated])
  qed
  show ?thesis
    unfolding float_of_int_def Let_def a k
    using m [of "10 ^ 309 div 2 ^ 974"] m [of "10 ^ 309 div 2 ^ 974 + 1"]
    by (simp del: power_numeral)
qed

lemma make_geo_lines_rejects_huge:
  "make_geo_lines [Position2D (PyInt (10 ^ 309)) (PyInt 0), Position2D (PyInt 0) (PyInt 0)] =
     Inl (ValidationError ''float_type'')"
  by (simp add: make_geo_lines_def make_geo_line_def LineString_init_def validate_float_def
      float_of_int_overflow del: power_numeral)

section \<open>The union of logical signals is closed\<close>

lemma validate_fields_keys:
  "validate_fields idok fs kvs = Inr out \<Longrightarrow> map fst out = map fst fs"
proof (induction fs arbitrary: out)
  case Nil
  then show ?case by simp
next
  case (Cons f fs)
  obtain n t d where f: "f = (n, t, d)" by (cases f)
  from Cons.prems Cons.IH show ?case
    unfolding f by (auto split: option.splits fdefault.splits sum.splits)
qed

lemma validate_literal_result:
  "validate idok (TLiteral s) v = Inr v' \<Longrightarrow> v' = JStr s"
  by (simp split: if_splits)

lemma validate_fields_literal:
  "validate_fields idok fs kvs = Inr out \<Longrightarrow>
   map_of fs n = Some (TLiteral s, Default (JStr s)) \<Longrightarrow>
   map_of out n = Some (JStr s)"
proof (induction fs arbitrary: out)
  case Nil
  then show ?case by simp
next
  case (Cons f fs)
  obtain n' t d where f: "f = (n', t, d)" by (cases f)
  show ?case
  proof (cases "n' = n")
    case True
    with Cons.prems(2) f have td: "t = TLiteral s" "d = Default (JStr s)" by simp_all
    from Cons.prems(1) show ?thesis
      unfolding f td True
      by (auto split: option.splits sum.splits if_splits)
  next
    case False
    with Cons.prems(2) f have m: "map_of fs n = Some (TLiteral s, Default (JStr s))" by simp
    from Cons.prems(1) obtain v out' where o: "out = (n', v) # out'"
      and r: "validate_fields idok fs kvs = Inr out'"
      unfolding f by (auto split: option.splits fdefault.splits sum.splits)
    from Cons.IH [OF r m] False show ?thesis by (simp add: o)
  qed
qed

lemma validate_model_discriminator:
  "validate idok (TModel fs) v = Inr out \<Longrightarrow>
   map_of fs n = Some (TLiteral s, Default (JStr s)) \<Longrightarrow>
   get_field out n = Some (JStr s)"
  by (cases v) (auto simp add: get_field_def split: sum.splits dest: validate_fields_literal)

lemma tags:
  "tag_of ''signaling_system'' BalSystem = Some ''BAL''"
  "tag_of ''signaling_system'' BaprSystem = Some ''BAPR''"
  "tag_of ''signaling_system'' Tvm300System = Some ''TVM300''"
  "tag_of ''signaling_system'' Tvm430System = Some ''TVM430''"
  "tag_of ''signaling_system'' EtcsLevel2System = Some ''ETCS_LEVEL2''"
  by (simp_all add: BalSystem_def BaprSystem_def Tvm300System_def Tvm430System_def
      EtcsLevel2System_def BaseLogicalSignal_fields_def)

lemma union_dispatch:
  "validate_union idok ''signaling_system'' tag
     [BalSystem, BaprSystem, Tvm300System, Tvm430System, EtcsLevel2System] v =
   (if tag = ''BAL'' then validate idok BalSystem v
    else if tag = ''BAPR'' then validate idok BaprSystem v
    else if tag = ''TVM300'' then validate idok Tvm300System v
    else if tag = ''TVM430'' then validate idok Tvm430System v
    else if tag = ''ETCS_LEVEL2'' then validate idok EtcsLevel2System v
    else Inl (ValidationError ''union_tag_invalid''))"
  by (simp add: tags eq_commute [of "_ :: string" tag])


lemma discriminators:
  "map_of (fields_of BalSystem) ''signaling_system'' = Some (TLiteral ''BAL'', Default (JStr ''BAL''))"
  "map_of (fields_of BaprSystem) ''signaling_system'' = Some (TLiteral ''BAPR'', Default (JStr ''BAPR''))"
  "map_of (fields_of Tvm300System) ''signaling_system'' =
     Some (TLiteral ''TVM300'', Default (JStr ''TVM300''))"
  "map_of (fields_of Tvm430System) ''signaling_system'' =
     Some (TLiteral ''TVM430'', Default (JStr ''TVM430''))"
  "map_of (fields_of EtcsLevel2System) ''signaling_system'' =
     Some (TLiteral ''ETCS_LEVEL2'', Default (JStr ''ETCS_LEVEL2''))"
  by (simp_all add: BalSystem_def BaprSystem_def Tvm300System_def Tvm430System_def
      EtcsLevel2System_def BaseLogicalSignal_fields_def)

lemma is_model:
  "BalSystem = TModel (fields_of BalSystem)"
  "BaprSystem = TModel (fields_of BaprSystem)"
  "Tvm300System = TModel (fields_of Tvm300System)"
  "Tvm430System = TModel (fields_of Tvm430System)"
  "EtcsLevel2System = TModel (fields_of EtcsLevel2System)"
  by (simp_all add: BalSystem_def BaprSystem_def Tvm300System_def Tvm430System_def
      EtcsLevel2System_def)

lemma variant_discriminator:
  "validate idok BalSystem v = Inr out \<Longrightarrow> get_field out ''signaling_system'' = Some (JStr ''BAL'')"
  "validate idok BaprSystem v = Inr out \<Longrightarrow> get_field out ''signaling_system'' = Some (JStr ''BAPR'')"
  "validate idok Tvm300System v = Inr out \<Longrightarrow>
     get_field out ''signaling_system'' = Some (JStr ''TVM300'')"
  "validate idok Tvm430System v = Inr out \<Longrightarrow>
     get_field out ''signaling_system'' = Some (JStr ''TVM430'')"
  "validate idok EtcsLevel2System v = Inr out \<Longrightarrow>
     get_field out ''signaling_system'' = Some (JStr ''ETCS_LEVEL2'')"
  using validate_model_discriminator [OF _ discriminators(1), of idok v out]
        validate_model_discriminator [OF _ discriminators(2), of idok v out]
        validate_model_discriminator [OF _ discriminators(3), of idok v out]
        validate_model_discriminator [OF _ discriminators(4), of idok v out]
        validate_model_discriminator [OF _ discriminators(5), of idok v out]
        is_model
  by metis+

lemma limited_validate_obj:
  "validate idok LimitedLogicalSignal (JObj kvs) =
     (case map_of kvs ''signaling_system'' of
        None \<Rightarrow> Inl (ValidationError ''union_tag_not_found'')
      | Some (JStr tag) \<Rightarrow>
          validate_union idok ''signaling_system'' tag
            [BalSystem, BaprSystem, Tvm300System, Tvm430System, EtcsLevel2System] (JObj kvs)
      | Some _ \<Rightarrow> Inl (ValidationError ''union_tag_invalid''))"
  by (simp add: LimitedLogicalSignal_def)

lemma limited_rejects_unknown:
  assumes "map_of kvs ''signaling_system'' = Some x"
      and "x \<notin> JStr ` {''BAL'', ''BAPR'', ''TVM300'', ''TVM430'', ''ETCS_LEVEL2''}"
  shows "validate idok LimitedLogicalSignal (JObj kvs) = Inl (ValidationError ''union_tag_invalid'')"
proof (cases x)
  case (JStr tag)
  with assms(2) have "tag \<notin> {''BAL'', ''BAPR'', ''TVM300'', ''TVM430'', ''ETCS_LEVEL2''}" by blast
  then have t: "tag \<noteq> ''BAL''" "tag \<noteq> ''BAPR''" "tag \<noteq> ''TVM300''" "tag \<noteq> ''TVM430''"
    "tag \<noteq> ''ETCS_LEVEL2''" by simp_all
  show ?thesis unfolding limited_validate_obj union_dispatch using t by (simp add: assms(1) JStr)
qed (simp_all add: limited_validate_obj assms(1))

lemma limited_accepts_known:
  assumes "validate idok LimitedLogicalSignal v = Inr out"
  shows "get_field out ''signaling_system'' \<in>
           Some ` JStr ` {''BAL'', ''BAPR'', ''TVM300'', ''TVM430'', ''ETCS_LEVEL2''}"
proof (cases v)
  case (JObj kvs)
  show ?thesis
  proof (cases "map_of kvs ''signaling_system''")
    case None
    with assms show ?thesis by (simp add: JObj limited_validate_obj)
  next
    case (Some x)
    show ?thesis
    proof (cases x)
      case (JStr tag)
      from assms have u: "validate_union idok ''signaling_system'' tag
            [BalSystem, BaprSystem, Tvm300System, Tvm430System, EtcsLevel2System] v = Inr out"
        by (simp add: JObj limited_validate_obj Some JStr)
      then show ?thesis
        unfolding union_dispatch
        by (auto split: if_splits dest: variant_discriminator)
    qed (use assms in \<open>simp_all add: JObj limited_validate_obj Some\<close>)
  qed
qed (use assms in \<open>simp_all add: LimitedLogicalSignal_def\<close>)


text \<open>
  Claim C4. A logical signal whose signaling-system kind is not one of BAL, BAPR, TVM300,
  TVM430, ETCS\_LEVEL2 is rejected when it is validated as a \<^verbatim>\<open>LimitedLogicalSignal\<close>,
  that is at construction: every input whose \<^verbatim>\<open>signaling_system\<close> entry is anything else
  fails validation, and every logical signal that validation returns carries one of the
  five kinds in its \<^verbatim>\<open>signaling_system\<close> field.
\<close>

theorem unknown_signaling_system_rejected:
  "(map_of kvs ''signaling_system'' = Some x \<and>
      x \<notin> JStr ` {''BAL'', ''BAPR'', ''TVM300'', ''TVM430'', ''ETCS_LEVEL2''}
      \<longrightarrow> isl (validate idok LimitedLogicalSignal (JObj kvs))) \<and>
   (validate idok LimitedLogicalSignal v = Inr out
      \<longrightarrow> get_field out ''signaling_system'' \<in>
            Some ` JStr ` {''BAL'', ''BAPR'', ''TVM300'', ''TVM430'', ''ETCS_LEVEL2''})"
proof (intro conjI impI)
  assume "map_of kvs ''signaling_system'' = Some x \<and>
      x \<notin> JStr ` {''BAL'', ''BAPR'', ''TVM300'', ''TVM430'', ''ETCS_LEVEL2''}"
  then have "validate idok LimitedLogicalSignal (JObj kvs) =
      Inl (ValidationError ''union_tag_invalid'')"
    using limited_rejects_unknown by blast
  then show "isl (validate idok LimitedLogicalSignal (JObj kvs))" by simp
next
  assume "validate idok LimitedLogicalSignal v = Inr out"
  then show "get_field out ''signaling_system'' \<in>
      Some ` JStr ` {''BAL'', ''BAPR'', ''TVM300'', ''TVM430'', ''ETCS_LEVEL2''}"
    by (rule limited_accepts_known)
qed

theorem unknown_signaling_system_rejected_witness:
  "isl (validate (\<lambda>s. True) LimitedLogicalSignal
      (JObj [(''signaling_system'', JStr ''KVB''),
             (''settings'', JObj [(''Nf'', JStr ''true'')]),
             (''default_parameters'', JObj [])])) \<and>
   validate (\<lambda>s. True) LimitedLogicalSignal
      (JObj [(''signaling_system'', JStr ''BAL''),
             (''settings'', JObj [(''Nf'', JStr ''true'')]),
             (''default_parameters'', JObj [(''jaune_cli'', JStr ''false'')])]) =
     Inr (JObj [(''next_signaling_systems'', JArr []),
                (''signaling_system'', JStr ''BAL''),
                (''settings'', JObj [(''Nf'', JStr ''true'')]),
                (''default_parameters'', JObj [(''jaune_cli'', JStr ''false'')]),
                (''conditional_parameters'', JArr [])]) \<and>
   get_field (JObj [(''next_signaling_systems'', JArr []),
                (''signaling_system'', JStr ''BAL''),
                (''settings'', JObj [(''Nf'', JStr ''true'')]),
                (''default_parameters'', JObj [(''jaune_cli'', JStr ''false'')]),
                (''conditional_parameters'', JArr [])]) ''signaling_system''
     \<in> Some ` JStr ` {''BAL'', ''BAPR'', ''TVM300'', ''TVM430'', ''ETCS_LEVEL2''}"
proof -
  let ?bad = "[(''signaling_system'', JStr ''KVB''),
             (''settings'', JObj [(''Nf'', JStr ''true'')]),
             (''default_parameters'', JObj [])]"
  let ?good = "JObj [(''signaling_system'', JStr ''BAL''),
             (''settings'', JObj [(''Nf'', JStr ''true'')]),
             (''default_parameters'', JObj [(''jaune_cli'', JStr ''false'')])]"
  let ?out = "JObj [(''next_signaling_systems'', JArr []),
                (''signaling_system'', JStr ''BAL''),
                (''settings'', JObj [(''Nf'', JStr ''true'')]),
                (''default_parameters'', JObj [(''jaune_cli'', JStr ''false'')]),
                (''conditional_parameters'', JArr [])]"
  have b: "map_of ?bad ''signaling_system'' = Some (JStr ''KVB'') \<and>
      JStr ''KVB'' \<notin> JStr ` {''BAL'', ''BAPR'', ''TVM300'', ''TVM430'', ''ETCS_LEVEL2''}"
    by simp
  have g: "validate (\<lambda>s. True) LimitedLogicalSignal ?good = Inr ?out"
    by (simp add: LimitedLogicalSignal_def BalSystem_def BaseLogicalSignal_fields_def
        BalSystem_Settings_def BalSystem_Parameters_def FlagSignalParameter_def
        BalSystem_ConditionalParameters_def)
  from unknown_signaling_system_rejected [of ?bad "JStr ''KVB''" "\<lambda>s. True" ?good ?out] b g
  show ?thesis by blast
qed

section \<open>Field layout of the variants\<close>

lemma validate_fields_default:
  "validate_fields idok fs kvs = Inr out \<Longrightarrow>
   map_of fs n = Some (t, Default dv) \<Longrightarrow> map_of kvs n = None \<Longrightarrow>
   map_of out n = Some dv"
proof (induction fs arbitrary: out)
  case Nil
  then show ?case by simp
next
  case (Cons f fs)
  obtain n' t' d' where f: "f = (n', t', d')" by (cases f)
  show ?case
  proof (cases "n' = n")
    case True
    with Cons.prems(2) f have td: "t' = t" "d' = Default dv" by simp_all
    from Cons.prems(1,3) show ?thesis
      unfolding f td True
      by (auto split: option.splits sum.splits)
  next
    case False
    with Cons.prems(2) f have m: "map_of fs n = Some (t, Default dv)" by simp
    from Cons.prems(1) obtain v out' where o: "out = (n', v) # out'"
      and r: "validate_fields idok fs kvs = Inr out'"
      unfolding f by (auto split: option.splits fdefault.splits sum.splits)
    from Cons.IH [OF r m Cons.prems(3)] False show ?thesis by (simp add: o)
  qed
qed

lemma validate_model_default:
  "validate idok (TModel fs) (JObj kvs) = Inr out \<Longrightarrow>
   map_of fs n = Some (t, Default dv) \<Longrightarrow> map_of kvs n = None \<Longrightarrow>
   get_field out n = Some dv"
  by (auto simp add: get_field_def split: sum.splits dest: validate_fields_default)

lemma validate_model_keys:
  "validate idok (TModel fs) v = Inr out \<Longrightarrow> map fst (members_of out) = map fst fs"
  by (cases v) (auto split: sum.splits dest: validate_fields_keys)

lemma conditional_defaults:
  "map_of (fields_of BalSystem) ''conditional_parameters'' =
     Some (TList BalSystem_ConditionalParameters, Default (JArr []))"
  "map_of (fields_of BaprSystem) ''conditional_parameters'' =
     Some (TList BaprSystem_ConditionalParameters, Default (JArr []))"
  "map_of (fields_of Tvm300System) ''conditional_parameters'' =
     Some (TList Tvm300System_ConditionalParameters, Default (JArr []))"
  "map_of (fields_of Tvm430System) ''conditional_parameters'' =
     Some (TList Tvm430System_ConditionalParameters, Default (JArr []))"
  "map_of (fields_of EtcsLevel2System) ''conditional_parameters'' =
     Some (TList EtcsLevel2System_ConditionalParameters, Default (JArr []))"
  by (simp_all add: BalSystem_def BaprSystem_def Tvm300System_def Tvm430System_def
      EtcsLevel2System_def BaseLogicalSignal_fields_def)

lemma variant_names:
  "field_names BalSystem = [''next_signaling_systems'', ''signaling_system'', ''settings'',
     ''default_parameters'', ''conditional_parameters'']"
  "field_names BaprSystem = [''next_signaling_systems'', ''signaling_system'', ''settings'',
     ''parameters'', ''conditional_parameters'']"
  "field_names Tvm300System = [''next_signaling_systems'', ''signaling_system'', ''settings'',
     ''default_parameters'', ''conditional_parameters'']"
  "field_names Tvm430System = [''next_signaling_systems'', ''signaling_system'', ''settings'',
     ''default_parameters'', ''conditional_parameters'']"
  "field_names EtcsLevel2System = [''next_signaling_systems'', ''signaling_system'', ''settings'',
     ''default_parameters'', ''conditional_parameters'']"
  by (simp_all add: field_names_def BalSystem_def BaprSystem_def Tvm300System_def
      Tvm430System_def EtcsLevel2System_def BaseLogicalSignal_fields_def)

lemma variant_defaults:
  assumes m: "m \<in> set (union_members LimitedLogicalSignal)"
      and v: "validate idok m (JObj kvs) = Inr out"
  shows "map_of kvs ''signaling_system'' = None \<Longrightarrow>
           get_field out ''signaling_system'' = map_option JStr (tag_of ''signaling_system'' m)"
    and "map_of kvs ''conditional_parameters'' = None \<Longrightarrow>
           get_field out ''conditional_parameters'' = Some (JArr [])"
    and "map fst (members_of out) = field_names m"
proof -
  from m consider "m = BalSystem" | "m = BaprSystem" | "m = Tvm300System" | "m = Tvm430System"
    | "m = EtcsLevel2System"
    by (auto simp add: LimitedLogicalSignal_def)
  note cases = this
  have mdl: "m = TModel (fields_of m)"
    using cases is_model by cases simp_all
  from v mdl have v': "validate idok (TModel (fields_of m)) (JObj kvs) = Inr out" by simp
  have disc: "map_of (fields_of m) ''signaling_system'' =
      map_option (\<lambda>s. (TLiteral s, Default (JStr s))) (tag_of ''signaling_system'' m)"
    using cases by cases (simp_all add: discriminators tags)
  have cond: "\<exists>t. map_of (fields_of m) ''conditional_parameters'' = Some (t, Default (JArr []))"
    using cases by cases (simp_all add: conditional_defaults)
  have tg: "\<exists>s. tag_of ''signaling_system'' m = Some s"
    using cases by cases (simp_all add: tags)
  show "map fst (members_of out) = field_names m"
    using validate_model_keys [OF v'] by (simp add: field_names_def)
  show "get_field out ''conditional_parameters'' = Some (JArr [])"
    if "map_of kvs ''conditional_parameters'' = None"
    using cond validate_model_default [OF v' _ that] by blast
  show "get_field out ''signaling_system'' = map_option JStr (tag_of ''signaling_system'' m)"
    if "map_of kvs ''signaling_system'' = None"
  proof -
    from tg obtain s where s: "tag_of ''signaling_system'' m = Some s" by blast
    with disc have "map_of (fields_of m) ''signaling_system'' = Some (TLiteral s, Default (JStr s))"
      by simp
    from validate_model_default [OF v' this that] s show ?thesis by simp
  qed
qed


lemma variant_field_defaults:
  "field_default BalSystem ''signaling_system'' = Some (Default (JStr ''BAL''))"
  "field_default BaprSystem ''signaling_system'' = Some (Default (JStr ''BAPR''))"
  "field_default Tvm300System ''signaling_system'' = Some (Default (JStr ''TVM300''))"
  "field_default Tvm430System ''signaling_system'' = Some (Default (JStr ''TVM430''))"
  "field_default EtcsLevel2System ''signaling_system'' = Some (Default (JStr ''ETCS_LEVEL2''))"
  "field_default BalSystem ''conditional_parameters'' = Some (Default (JArr []))"
  "field_default BaprSystem ''conditional_parameters'' = Some (Default (JArr []))"
  "field_default Tvm300System ''conditional_parameters'' = Some (Default (JArr []))"
  "field_default Tvm430System ''conditional_parameters'' = Some (Default (JArr []))"
  "field_default EtcsLevel2System ''conditional_parameters'' = Some (Default (JArr []))"
  by (simp_all add: field_default_def discriminators conditional_defaults)

text \<open>
  Claim C10. The five logical-signal variants do not share one field layout: a BAPR
  logical signal has its default parameter set under \<^verbatim>\<open>parameters\<close> and has no
  \<^verbatim>\<open>default_parameters\<close> field, while BAL, TVM300, TVM430 and ETCS\_LEVEL2 have theirs
  under \<^verbatim>\<open>default_parameters\<close>. In all five the \<^verbatim>\<open>signaling_system\<close> field
  defaults to the variant's own kind and \<^verbatim>\<open>conditional_parameters\<close> defaults to the
  empty list; a validated object has exactly the declared fields, and an input that leaves
  those two keys out gets these defaults.
\<close>

theorem logical_signal_fields_not_uniform:
  "''parameters'' \<in> set (field_names BaprSystem) \<and>
   ''default_parameters'' \<notin> set (field_names BaprSystem) \<and>
   ''default_parameters'' \<in> set (field_names BalSystem) \<and>
   ''default_parameters'' \<in> set (field_names Tvm300System) \<and>
   ''default_parameters'' \<in> set (field_names Tvm430System) \<and>
   ''default_parameters'' \<in> set (field_names EtcsLevel2System) \<and>
   field_default BalSystem ''signaling_system'' = Some (Default (JStr ''BAL'')) \<and>
   field_default BaprSystem ''signaling_system'' = Some (Default (JStr ''BAPR'')) \<and>
   field_default Tvm300System ''signaling_system'' = Some (Default (JStr ''TVM300'')) \<and>
   field_default Tvm430System ''signaling_system'' = Some (Default (JStr ''TVM430'')) \<and>
   field_default EtcsLevel2System ''signaling_system'' = Some (Default (JStr ''ETCS_LEVEL2'')) \<and>
   field_default BalSystem ''conditional_parameters'' = Some (Default (JArr [])) \<and>
   field_default BaprSystem ''conditional_parameters'' = Some (Default (JArr [])) \<and>
   field_default Tvm300System ''conditional_parameters'' = Some (Default (JArr [])) \<and>
   field_default Tvm430System ''conditional_parameters'' = Some (Default (JArr [])) \<and>
   field_default EtcsLevel2System ''conditional_parameters'' = Some (Default (JArr [])) \<and>
   (m \<in> set (union_members LimitedLogicalSignal) \<and> validate idok m (JObj kvs) = Inr out
      \<longrightarrow>
        map fst (members_of out) = field_names m \<and>
        (map_of kvs ''signaling_system'' = None \<longrightarrow>
           get_field out ''signaling_system'' = map_option JStr (tag_of ''signaling_system'' m)) \<and>
        (map_of kvs ''conditional_parameters'' = None \<longrightarrow>
           get_field out ''conditional_parameters'' = Some (JArr [])))"
proof -
  have names: "''parameters'' \<in> set (field_names BaprSystem)"
    "''default_parameters'' \<notin> set (field_names BaprSystem)"
    "''default_parameters'' \<in> set (field_names BalSystem)"
    "''default_parameters'' \<in> set (field_names Tvm300System)"
    "''default_parameters'' \<in> set (field_names Tvm430System)"
    "''default_parameters'' \<in> set (field_names EtcsLevel2System)"
    by (simp_all add: variant_names)
  have behaviour: "m \<in> set (union_members LimitedLogicalSignal) \<and>
      validate idok m (JObj kvs) = Inr out \<longrightarrow>
        map fst (members_of out) = field_names m \<and>
        (map_of kvs ''signaling_system'' = None \<longrightarrow>
           get_field out ''signaling_system'' = map_option JStr (tag_of ''signaling_system'' m)) \<and>
        (map_of kvs ''conditional_parameters'' = None \<longrightarrow>
           get_field out ''conditional_parameters'' = Some (JArr []))"
    using variant_defaults [of m idok kvs out] by blast
  from names variant_field_defaults behaviour show ?thesis by blast
qed

theorem logical_signal_fields_not_uniform_witness:
  "validate (\<lambda>s. True) BaprSystem
      (JObj [(''settings'', JObj [(''Nf'', JStr ''true''), (''distant'', JStr ''false'')]),
             (''parameters'', JObj [])]) =
     Inr (JObj [(''next_signaling_systems'', JArr []),
                (''signaling_system'', JStr ''BAPR''),
                (''settings'', JObj [(''Nf'', JStr ''true''), (''distant'', JStr ''false'')]),
                (''parameters'', JObj []),
                (''conditional_parameters'', JArr [])]) \<and>
   get_field (JObj [(''next_signaling_systems'', JArr []),
                (''signaling_system'', JStr ''BAPR''),
                (''settings'', JObj [(''Nf'', JStr ''true''), (''distant'', JStr ''false'')]),
                (''parameters'', JObj []),
                (''conditional_parameters'', JArr [])]) ''signaling_system'' =
     map_option JStr (tag_of ''signaling_system'' BaprSystem) \<and>
   get_field (JObj [(''next_signaling_systems'', JArr []),
                (''signaling_system'', JStr ''BAPR''),
                (''settings'', JObj [(''Nf'', JStr ''true''), (''distant'', JStr ''false'')]),
                (''parameters'', JObj []),
                (''conditional_parameters'', JArr [])]) ''conditional_parameters'' =
     Some (JArr [])"
proof -
  let ?kvs = "[(''settings'', JObj [(''Nf'', JStr ''true''), (''distant'', JStr ''false'')]),
             (''parameters'', JObj [])]"
  let ?out = "JObj [(''next_signaling_systems'', JArr []),
                (''signaling_system'', JStr ''BAPR''),
                (''settings'', JObj [(''Nf'', JStr ''true''), (''distant'', JStr ''false'')]),
                (''parameters'', JObj []),
                (''conditional_parameters'', JArr [])]"
  have m: "BaprSystem \<in> set (union_members LimitedLogicalSignal)"
    by (simp add: LimitedLogicalSignal_def)
  have v: "validate (\<lambda>s. True) BaprSystem (JObj ?kvs) = Inr ?out"
    by (simp add: BaprSystem_def BaseLogicalSignal_fields_def BaprSystem_Settings_def
        BaprSystem_Parameters_def FlagSignalParameter_def)
  have n: "map_of ?kvs ''signaling_system'' = None" "map_of ?kvs ''conditional_parameters'' = None"
    by simp_all
  from logical_signal_fields_not_uniform [of BaprSystem "\<lambda>s. True" ?kvs ?out] m v n
  show ?thesis by blast
qed

section \<open>The ring scenario\<close>

lemmas builder_defs = and_then_def add_track_section_def alloc_id_def Builder_new_def
  add_link_def add_point_switch_def add_switch_def consumed_def track_begin_def track_end_def
  build_def track_offsets_ok_def track_variants_ok_def offset_ok_def InfraBuilder_init_def

text \<open>
  Claim C7. Scenario A, the ring of circle\_infra.py: four tracks of length 200, a link from
  the end of track D to the begin of track A, a point switch joining A.end with B.begin and
  C.begin and one joining D.begin with B.end and C.end. The document has exactly 4 track
  sections, 1 link and 2 switches, and none of the 8 endpoints dangles: each is used by
  exactly one link end or switch port.
\<close>

theorem circle_infra_ring:
  "map_sum id doc_counts circle_infra = Inr (4, 0, 0, 1, 2) \<and>
   map_sum id endpoint_uses circle_infra = Inr [1, 1, 1, 1, 1, 1, 1, 1]"
  by (simp add: circle_infra_def builder_defs doc_counts_def endpoint_uses_def
      doc_consumers_def doc_endpoints_def)

section \<open>The chain scenario\<close>

lemma add_track_sections_fresh:
  assumes "0 \<le> len"
      and "\<forall>t \<in> set (b_tracks b). \<forall>j \<ge> b_counters b KTrackSection. bt_id t \<noteq> Auto KTrackSection j"
  shows "add_track_sections n len b =
     Inr (map (\<lambda>i. \<lparr>th_id = Auto KTrackSection i, th_length = len\<rparr>)
            [b_counters b KTrackSection ..< b_counters b KTrackSection + n],
          b\<lparr>b_tracks := b_tracks b @
               map (empty_track len) [b_counters b KTrackSection ..< b_counters b KTrackSection + n],
            b_counters := (b_counters b)(KTrackSection := b_counters b KTrackSection + n)\<rparr>)"
  using assms
proof (induction n arbitrary: b)
  case 0
  then show ?case by simp
next
  case (Suc n)
  let ?c = "b_counters b KTrackSection"
  let ?b1 = "b\<lparr>b_counters := (b_counters b)(KTrackSection := ?c + 1),
               b_tracks := b_tracks b @ [empty_track len ?c]\<rparr>"
  have notin: "Auto KTrackSection ?c \<notin> bt_id ` set (b_tracks b)"
  proof
    assume "Auto KTrackSection ?c \<in> bt_id ` set (b_tracks b)"
    then obtain t where "t \<in> set (b_tracks b)" "bt_id t = Auto KTrackSection ?c" by auto
    with Suc.prems(2) show False by blast
  qed
  from Suc.prems(1) notin have step: "add_track_section len None b =
      Inr (\<lparr>th_id = Auto KTrackSection ?c, th_length = len\<rparr>, ?b1)"
    by (simp add: add_track_section_def alloc_id_def empty_track_def)
  have fresh1: "\<forall>t \<in> set (b_tracks ?b1). \<forall>j \<ge> b_counters ?b1 KTrackSection.
      bt_id t \<noteq> Auto KTrackSection j"
    using Suc.prems(2) by (auto simp add: empty_track_def)
  have collapse: "\<And>x y. (\<lambda>a. if a = KTrackSection then x else if a = KTrackSection then y
      else b_counters b a) = (\<lambda>a. if a = KTrackSection then x else b_counters b a)"
    by auto
  from Suc.IH [OF Suc.prems(1) fresh1] show ?case
    by (simp add: step and_then_def upt_conv_Cons collapse del: upt_Suc)
qed


lemma upt10: "[0..<10::nat] = [0, 1, 2, 3, 4, 5, 6, 7, 8, 9]"
  by (simp add: upt_rec)

lemma tracks_created:
  "add_track_sections 10 1000 Builder_new =
     Inr (map handle [0..<10],
          Builder_new\<lparr>b_tracks := map (empty_track 1000) [0..<10],
                       b_counters := (\<lambda>k. 0)(KTrackSection := 10)\<rparr>)"
proof -
  have "add_track_sections 10 1000 Builder_new =
     Inr (map (\<lambda>i. \<lparr>th_id = Auto KTrackSection i, th_length = 1000\<rparr>)
            [b_counters Builder_new KTrackSection ..< b_counters Builder_new KTrackSection + 10],
          Builder_new\<lparr>b_tracks := b_tracks Builder_new @
               map (empty_track 1000)
                 [b_counters Builder_new KTrackSection ..< b_counters Builder_new KTrackSection + 10],
            b_counters := (b_counters Builder_new)
               (KTrackSection := b_counters Builder_new KTrackSection + 10)\<rparr>)"
    by (rule add_track_sections_fresh) (simp_all add: Builder_new_def)
  moreover have "b_counters Builder_new = (\<lambda>k. 0)" "b_tracks Builder_new = []"
    by (simp_all add: Builder_new_def)
  moreover have "(\<lambda>i. \<lparr>th_id = Auto KTrackSection i, th_length = 1000\<rparr>) = handle"
    by (simp add: handle_def fun_eq_iff)
  ultimately show ?thesis by simp
qed

lemma with_inverted_handles:
  "with_inverted (map handle [0..<n]) = map (\<lambda>i. (i, handle i, i mod 2 = 1)) [0..<n]"
proof -
  have "zip [0..<n] (map handle [0..<n]) = map (\<lambda>i. (i, handle i)) [0..<n]"
    by (simp add: zip_map2 zip_same_conv_map)
  then show ?thesis by (simp add: with_inverted_def)
qed

lemma coords_loop:
  "\<exists>cs. for_each xs one_line_coords b = Inr (b\<lparr>b_coords := cs\<rparr>)"
proof (induction xs arbitrary: b)
  case Nil
  have "b = b\<lparr>b_coords := b_coords b\<rparr>" by simp
  then show ?case by (metis for_each.simps(1))
next
  case (Cons x xs)
  obtain i t flag where x: "x = (i, t, flag)" by (cases x)
  obtain c where c: "one_line_coords x b = Inr (b\<lparr>b_coords := c\<rparr>)"
    unfolding x one_line_coords_def set_coords_def by (cases flag) simp_all
  from Cons.IH [of "b\<lparr>b_coords := c\<rparr>"] obtain cs
    where "for_each xs one_line_coords (b\<lparr>b_coords := c\<rparr>) = Inr (b\<lparr>b_coords := c\<rparr>\<lparr>b_coords := cs\<rparr>)"
    by blast
  then have "for_each (x # xs) one_line_coords b = Inr (b\<lparr>b_coords := cs\<rparr>)"
    by (simp add: c and_then_def)
  then show ?case by blast
qed

lemmas object_defs = add_detector_def add_signal_def add_logical_signal_def update_track_def
  SignalingSystem_def alloc_id_def and_then_def

lemma objects_step:
  assumes tr: "b_tracks b = map (full_track 1000) [0..<i] @ map (empty_track 1000) [i..<n]"
      and i: "i < n"
      and d: "b_counters b KDetector = i" and s: "b_counters b KSignal = 2 * i"
  shows "one_line_objects (i, handle i, flag) b =
     Inr (b\<lparr>b_tracks := map (full_track 1000) [0..<Suc i] @ map (empty_track 1000) [Suc i..<n],
            b_counters := (b_counters b)(KDetector := Suc i, KSignal := 2 * Suc i)\<rparr>)"
proof -
  let ?pre = "map (full_track 1000) [0..<i]"
  let ?post = "map (empty_track 1000) [Suc i..<n]"
  have split: "[i..<n] = i # [Suc i..<n]" using i by (simp add: upt_conv_Cons)
  have tr': "b_tracks b = ?pre @ empty_track 1000 i # ?post"
    unfolding tr split by simp
  have ne1: "\<And>j. j \<in> set [0..<i] \<Longrightarrow> bt_id (full_track 1000 j) \<noteq> Auto KTrackSection i"
    by (auto simp add: full_track_def)
  have ne2: "\<And>j. j \<in> set [Suc i..<n] \<Longrightarrow> bt_id (empty_track 1000 j) \<noteq> Auto KTrackSection i"
    by (auto simp add: empty_track_def)
  have upd: "\<And>f t0. bt_id t0 = Auto KTrackSection i \<Longrightarrow>
      map (\<lambda>t. if bt_id t = Auto KTrackSection i then f t else t) (?pre @ t0 # ?post) =
      ?pre @ f t0 # ?post"
    using ne1 ne2 by simp
  show ?thesis
    unfolding one_line_objects_def
    by (simp add: object_defs Let_def handle_def tr' d s upd empty_track_def full_track_def)
qed


lemma objects_loop:
  assumes "k \<le> n"
      and "b_tracks b = map (full_track 1000) [0..<k] @ map (empty_track 1000) [k..<n]"
      and "b_counters b KDetector = k" and "b_counters b KSignal = 2 * k"
  shows "for_each (map (\<lambda>i. (i, handle i, f i)) [k..<n]) one_line_objects b =
     Inr (b\<lparr>b_tracks := map (full_track 1000) [0..<n],
            b_counters := (b_counters b)(KDetector := n, KSignal := 2 * n)\<rparr>)"
  using assms
proof (induction "n - k" arbitrary: k b)
  case 0
  then have kn: "k = n" by simp
  have "(b_counters b)(KDetector := n, KSignal := 2 * n) = b_counters b"
    using "0.prems"(3,4) kn by (auto simp add: fun_eq_iff)
  moreover have "b_tracks b = map (full_track 1000) [0..<n]" using "0.prems"(2) kn by simp
  ultimately have eq: "b\<lparr>b_tracks := map (full_track 1000) [0..<n],
      b_counters := (b_counters b)(KDetector := n, KSignal := 2 * n)\<rparr> = b" by simp
  have "for_each (map (\<lambda>i. (i, handle i, f i)) [k..<n]) one_line_objects b = Inr b"
    by (simp add: kn)
  then show ?case by (simp only: eq)
next
  case (Suc m)
  then have lt: "k < n" by simp
  let ?b1 = "b\<lparr>b_tracks := map (full_track 1000) [0..<Suc k] @ map (empty_track 1000) [Suc k..<n],
            b_counters := (b_counters b)(KDetector := Suc k, KSignal := 2 * Suc k)\<rparr>"
  have step: "one_line_objects (k, handle k, f k) b = Inr ?b1"
    using Suc.prems(2) lt Suc.prems(3,4) by (rule objects_step)
  have m: "m = n - Suc k" using Suc.hyps(2) by simp
  have rest: "for_each (map (\<lambda>i. (i, handle i, f i)) [Suc k..<n]) one_line_objects ?b1 =
     Inr (?b1\<lparr>b_tracks := map (full_track 1000) [0..<n],
            b_counters := (b_counters ?b1)(KDetector := n, KSignal := 2 * n)\<rparr>)"
    by (rule Suc.hyps(1) [OF m]) (use lt in simp_all)
  have cnt: "(b_counters ?b1)(KDetector := n, KSignal := 2 * n) =
      (b_counters b)(KDetector := n, KSignal := 2 * n)"
    by (auto simp add: fun_eq_iff)
  have split: "[k..<n] = k # [Suc k..<n]" using lt by (simp add: upt_conv_Cons)
  have rest2: "for_each (map (\<lambda>i. (i, handle i, f i)) [Suc k..<n]) one_line_objects ?b1 =
     Inr (b\<lparr>b_tracks := map (full_track 1000) [0..<n],
            b_counters := (b_counters b)(KDetector := n, KSignal := 2 * n)\<rparr>)"
    unfolding rest cnt by simp
  show ?case
    using rest2 unfolding split by (simp add: step and_then_def del: upt_Suc)
qed


lemma links_loop:
  assumes "b_links b = []" and "b_switches b = []"
  shows "for_each (zip (butlast (map (\<lambda>i. (i, handle i, i mod 2 = 1)) [0..<10]))
                       (tl (map (\<lambda>i. (i, handle i, i mod 2 = 1)) [0..<10]))) one_line_link b =
     Inr (b\<lparr>b_links := map (\<lambda>i. if even i
                 then ((Auto KTrackSection i, END), (Auto KTrackSection (Suc i), END))
                 else ((Auto KTrackSection i, BEGIN), (Auto KTrackSection (Suc i), BEGIN)))
               [0, 1, 2, 3, 4, 5, 6, 7, 8]\<rparr>)"
  by (simp add: upt10 one_line_link_def add_link_def consumed_def track_begin_def track_end_def
      handle_def and_then_def assms)


lemma replicate_20: "replicate 20 x = [x, x, x, x, x, x, x, x, x, x, x, x, x, x, x, x, x, x, x, x]"
  by (simp add: eval_nat_numeral)

lemma replicate_10: "replicate 10 x = [x, x, x, x, x, x, x, x, x, x]"
  by (simp add: eval_nat_numeral)

lemma build_final:
  assumes "b_tracks b = map (full_track 1000) [0..<10]" and "b_switches b = []"
      and "b_links b = map (\<lambda>i. if even i
                 then ((Auto KTrackSection i, END), (Auto KTrackSection (Suc i), END))
                 else ((Auto KTrackSection i, BEGIN), (Auto KTrackSection (Suc i), BEGIN)))
               [0, 1, 2, 3, 4, 5, 6, 7, 8]"
      and "speed_sections (b_infra b) = []"
  shows "map_sum id doc_counts (build p b) = Inr (10, 10, 20, 9, 0)"
    and "map_sum id signal_kinds (build p b) = Inr (replicate 20 [''BAL''])"
    and "map_sum id signal_flags (build p b) = Inr (replicate 20 (True, [[(''Nf'', ''true'')]]))"
    and "map_sum id (\<lambda>d. map (sig_position \<circ> snd) (doc_signals d)) (build p b) =
           Inr (replicate 20 500)"
    and "map_sum id (\<lambda>d. map (det_position \<circ> snd) (doc_detectors d)) (build p b) =
           Inr (replicate 10 500)"
  by (simp_all add: build_def assms upt10 full_track_def consumed_def track_offsets_ok_def
      track_variants_ok_def offset_ok_def doc_counts_def signal_kinds_def signal_flags_def
      SignalingSystem_def replicate_20 replicate_10)

lemma one_line_final_state:
  "\<exists>b. one_line = build process_start b \<and> b_tracks b = map (full_track 1000) [0..<10] \<and>
     b_switches b = [] \<and>
     b_links b = map (\<lambda>i. if even i
                 then ((Auto KTrackSection i, END), (Auto KTrackSection (Suc i), END))
                 else ((Auto KTrackSection i, BEGIN), (Auto KTrackSection (Suc i), BEGIN)))
               [0, 1, 2, 3, 4, 5, 6, 7, 8] \<and>
     speed_sections (b_infra b) = []"
proof -
  let ?L = "map (\<lambda>i. if even i
                 then ((Auto KTrackSection i, END), (Auto KTrackSection (Suc i), END))
                 else ((Auto KTrackSection i, BEGIN), (Auto KTrackSection (Suc i), BEGIN)))
               [0::nat, 1, 2, 3, 4, 5, 6, 7, 8]"
  let ?ts = "map (\<lambda>i. (i, handle i, i mod 2 = 1)) [0..<10]"
  let ?b0 = "Builder_new\<lparr>b_tracks := map (empty_track 1000) [0..<10],
                       b_counters := (\<lambda>k. 0)(KTrackSection := 10)\<rparr>"
  obtain cs where coords: "for_each ?ts one_line_coords ?b0 = Inr (?b0\<lparr>b_coords := cs\<rparr>)"
    using coords_loop by blast
  let ?b1 = "?b0\<lparr>b_coords := cs\<rparr>"
  have links: "for_each (zip (butlast ?ts) (tl ?ts)) one_line_link ?b1 = Inr (?b1\<lparr>b_links := ?L\<rparr>)"
    by (rule links_loop) (simp_all add: Builder_new_def)
  let ?b2 = "?b1\<lparr>b_links := ?L\<rparr>"
  let ?b3 = "?b2\<lparr>b_tracks := map (full_track 1000) [0..<10],
            b_counters := (b_counters ?b2)(KDetector := 10, KSignal := 2 * 10)\<rparr>"
  have objs: "for_each (map (\<lambda>i. (i, handle i, i mod 2 = 1)) [0..<10]) one_line_objects ?b2 = Inr ?b3"
    by (rule objects_loop) (simp_all add: Builder_new_def)
  have "one_line = build process_start ?b3"
    unfolding one_line_def tracks_created
    by (simp only: and_then_def sum.case prod.case with_inverted_handles coords links objs)
  moreover have "b_tracks ?b3 = map (full_track 1000) [0..<10]" by simp
  moreover have "b_switches ?b3 = []" by (simp add: Builder_new_def)
  moreover have "b_links ?b3 = ?L" by simp
  moreover have "speed_sections (b_infra ?b3) = []"
    by (simp add: Builder_new_def InfraBuilder_init_def)
  ultimately show ?thesis by blast
qed

text \<open>
  Claim C6, as amended. Scenario B, the chain of one\_line.py: ten tracks of length 1000 linked
  pairwise, each track carrying the one detector the script puts at offset 500 and two
  route-delimiter signals at the detector's position, each signal with one BAL logical
  signal with \<^verbatim>\<open>Nf = true\<close>. The document has exactly 10 track sections,
  10 detectors, 20 signals, 9 links and 0 switches; the list of logical signals of every
  signal holds exactly one variant, of kind BAL, with the settings \<^verbatim>\<open>Nf = true\<close>;
  every signal is a route delimiter at offset 500, where the detectors are.
\<close>

theorem one_line_chain:
  "map_sum id doc_counts one_line = Inr (10, 10, 20, 9, 0) \<and>
   map_sum id signal_kinds one_line = Inr (replicate 20 [''BAL'']) \<and>
   map_sum id signal_flags one_line = Inr (replicate 20 (True, [[(''Nf'', ''true'')]])) \<and>
   map_sum id (\<lambda>d. map (sig_position \<circ> snd) (doc_signals d)) one_line = Inr (replicate 20 500) \<and>
   map_sum id (\<lambda>d. map (det_position \<circ> snd) (doc_detectors d)) one_line = Inr (replicate 10 500)"
proof -
  from one_line_final_state obtain b where b: "one_line = build process_start b"
    "b_tracks b = map (full_track 1000) [0..<10]" "b_switches b = []"
    "b_links b = map (\<lambda>i. if even i
                 then ((Auto KTrackSection i, END), (Auto KTrackSection (Suc i), END))
                 else ((Auto KTrackSection i, BEGIN), (Auto KTrackSection (Suc i), BEGIN)))
               [0, 1, 2, 3, 4, 5, 6, 7, 8]"
    "speed_sections (b_infra b) = []" by blast
  show ?thesis
    unfolding b(1) using build_final [OF b(2-5)] by blast
qed

text \<open>
  Claim C6 as stated fails: the script adds one detector per track (line 50), so the
  document holds 10 detectors, not 20.
\<close>

theorem one_line_detectors_counterexample:
  "map_sum id (length \<circ> doc_detectors) one_line = Inr 10 \<and>
   map_sum id (length \<circ> doc_detectors) one_line \<noteq> Inr 20"
proof -
  from one_line_final_state obtain b where b: "one_line = build process_start b"
    "b_tracks b = map (full_track 1000) [0..<10]" "b_switches b = []"
    "b_links b = map (\<lambda>i. if even i
                 then ((Auto KTrackSection i, END), (Auto KTrackSection (Suc i), END))
                 else ((Auto KTrackSection i, BEGIN), (Auto KTrackSection (Suc i), BEGIN)))
               [0, 1, 2, 3, 4, 5, 6, 7, 8]"
    "speed_sections (b_infra b) = []" by blast
  from build_final(1) [OF b(2-5), of process_start]
  obtain d where "build process_start b = Inr d" "doc_counts d = (10, 10, 20, 9, 0)"
    by (cases "build process_start b") auto
  then show ?thesis unfolding b(1) by (simp add: doc_counts_def)
qed

section \<open>Order of the objects of a track in the document\<close>

lemma on_track_Pair:
  "on_track tid (map (Pair i) xs @ rest) = (if i = tid then xs else []) @ on_track tid rest"
  by (cases "i = tid") (simp_all add: on_track_def filter_map comp_def)

lemma on_track_absent:
  "tid \<notin> bt_id ` set ts \<Longrightarrow>
   on_track tid (concat (map (\<lambda>t. map (Pair (bt_id t)) (f t)) ts)) = []"
proof (induction ts)
  case Nil
  then show ?case by (simp add: on_track_def)
next
  case (Cons t ts)
  then show ?case by (auto simp add: on_track_Pair)
qed

lemma on_track_concat:
  "distinct (map bt_id ts) \<Longrightarrow>
   on_track tid (concat (map (\<lambda>t. map (Pair (bt_id t)) (f t)) ts)) =
     (case find (\<lambda>t. bt_id t = tid) ts of None \<Rightarrow> [] | Some t \<Rightarrow> f t)"
proof (induction ts)
  case Nil
  then show ?case by (simp add: on_track_def)
next
  case (Cons t ts)
  show ?case
  proof (cases "bt_id t = tid")
    case True
    then have "tid \<notin> bt_id ` set ts" using Cons.prems by auto
    then show ?thesis using True by (simp add: on_track_Pair on_track_absent)
  next
    case False
    then show ?thesis using Cons by (simp add: on_track_Pair)
  qed
qed

lemma build_Inr:
  assumes "build p b = Inr d"
  shows "distinct (map bt_id (b_tracks b))"
    and "doc_detectors d =
           concat (map (\<lambda>t. map (Pair (bt_id t)) (sort_key det_position (bt_detectors t)))
             (b_tracks b))"
    and "doc_signals d =
           concat (map (\<lambda>t. map (Pair (bt_id t)) (sort_key sig_position (bt_signals t)))
             (b_tracks b))"
    and "doc_buffer_stops d =
           concat (map (\<lambda>t. map (Pair (bt_id t)) (bt_buffer_stops t)) (b_tracks b))"
    and "doc_links d = b_links b" and "doc_switches d = b_switches b"
    and "doc_track_sections d = map (\<lambda>t. (bt_id t, bt_length t)) (b_tracks b)"
  using assms by (auto simp add: build_def split: if_splits)

lemma doc_detectors_on:
  assumes "build p b = Inr d"
  shows "on_track t (doc_detectors d) = sort_key det_position (detectors_on b t)"
  unfolding build_Inr(2) [OF assms] detectors_on_def track_of_def
  by (simp add: on_track_concat [OF build_Inr(1) [OF assms]] split: option.split)

lemma doc_signals_on:
  assumes "build p b = Inr d"
  shows "on_track t (doc_signals d) = sort_key sig_position (signals_on b t)"
  unfolding build_Inr(3) [OF assms] signals_on_def track_of_def
  by (simp add: on_track_concat [OF build_Inr(1) [OF assms]] split: option.split)

lemma doc_buffer_stops_on:
  assumes "build p b = Inr d"
  shows "on_track t (doc_buffer_stops d) = buffer_stops_on b t"
  unfolding build_Inr(4) [OF assms] buffer_stops_on_def track_of_def
  by (simp add: on_track_concat [OF build_Inr(1) [OF assms]] split: option.split)

lemma track_of_update_track:
  assumes "\<And>x. bt_id (f x) = bt_id x"
  shows "track_of (update_track tid f b) t =
     map_option (\<lambda>x. if bt_id x = tid then f x else x) (track_of b t)"
proof -
  have "find (\<lambda>x. bt_id x = t) (map (\<lambda>x. if bt_id x = tid then f x else x) ts) =
      map_option (\<lambda>x. if bt_id x = tid then f x else x) (find (\<lambda>x. bt_id x = t) ts)" for ts
    by (induction ts) (simp_all add: assms)
  then show ?thesis by (simp add: track_of_def update_track_def)
qed

lemma track_of_alloc_id: "track_of (snd (alloc_id k lbl b)) t = track_of b t"
  by (simp add: alloc_id_def track_of_def split: option.split)

lemma add_detector_appends:
  assumes "add_detector th pos lbl b = Inr (x, b1)"
  shows "det_position x = pos"
    and "detectors_on b1 t =
      (if t = th_id th \<and> track_of b t \<noteq> None then detectors_on b t @ [x] else detectors_on b t)"
    and "signals_on b1 t = signals_on b t" and "buffer_stops_on b1 t = buffer_stops_on b t"
proof -
  obtain i b0 where al: "alloc_id KDetector lbl b = (i, b0)" by (cases "alloc_id KDetector lbl b")
  from assms al have x: "x = \<lparr>det_id = i, det_position = pos\<rparr>"
    and b1: "b1 = update_track (th_id th) (\<lambda>t. t\<lparr>bt_detectors := bt_detectors t @ [x]\<rparr>) b0"
    by (auto simp add: add_detector_def Let_def split: if_splits)
  have tr: "track_of b0 t = track_of b t" for t
    using track_of_alloc_id [of KDetector lbl b t] al by simp
  have upd: "track_of b1 t =
      map_option (\<lambda>y. if bt_id y = th_id th then y\<lparr>bt_detectors := bt_detectors y @ [x]\<rparr> else y)
        (track_of b t)"
    unfolding b1 by (simp add: track_of_update_track tr)
  have idt: "track_of b t = Some y \<Longrightarrow> bt_id y = t" for y
    unfolding track_of_def by (auto simp add: find_Some_iff)
  show "det_position x = pos" by (simp add: x)
  show "detectors_on b1 t =
      (if t = th_id th \<and> track_of b t \<noteq> None then detectors_on b t @ [x] else detectors_on b t)"
    unfolding detectors_on_def upd using idt by (cases "track_of b t") auto
  show "signals_on b1 t = signals_on b t"
    unfolding signals_on_def upd by (cases "track_of b t") auto
  show "buffer_stops_on b1 t = buffer_stops_on b t"
    unfolding buffer_stops_on_def upd by (cases "track_of b t") auto
qed

lemma add_signal_appends:
  assumes "add_signal th pos dir delim lbl sight b = Inr (h, b1)"
  shows "signals_on b1 t =
      (if t = th_id th \<and> track_of b t \<noteq> None
       then signals_on b t @ [\<lparr>sig_id = sh_id h, sig_position = pos, sig_direction = dir,
              sig_is_route_delimiter = delim, sig_sight_distance = sight,
              sig_logical_signals = []\<rparr>]
       else signals_on b t)"
    and "detectors_on b1 t = detectors_on b t" and "buffer_stops_on b1 t = buffer_stops_on b t"
proof -
  let ?s = "\<lparr>sig_id = sh_id h, sig_position = pos, sig_direction = dir,
              sig_is_route_delimiter = delim, sig_sight_distance = sight,
              sig_logical_signals = []\<rparr>"
  obtain i b0 where al: "alloc_id KSignal lbl b = (i, b0)" by (cases "alloc_id KSignal lbl b")
  from assms al have h: "sh_id h = i"
    and b1: "b1 = update_track (th_id th) (\<lambda>t. t\<lparr>bt_signals := bt_signals t @ [?s]\<rparr>) b0"
    by (auto simp add: add_signal_def Let_def split: if_splits)
  have tr: "track_of b0 t = track_of b t" for t
    using track_of_alloc_id [of KSignal lbl b t] al by simp
  have upd: "track_of b1 t =
      map_option (\<lambda>y. if bt_id y = th_id th then y\<lparr>bt_signals := bt_signals y @ [?s]\<rparr> else y)
        (track_of b t)"
    by (subst b1) (simp add: track_of_update_track tr)
  have idt: "track_of b t = Some y \<Longrightarrow> bt_id y = t" for y
    unfolding track_of_def by (auto simp add: find_Some_iff)
  show "signals_on b1 t =
      (if t = th_id th \<and> track_of b t \<noteq> None then signals_on b t @ [?s] else signals_on b t)"
    unfolding signals_on_def upd using idt by (cases "track_of b t") auto
  show "detectors_on b1 t = detectors_on b t"
    unfolding detectors_on_def upd by (cases "track_of b t") auto
  show "buffer_stops_on b1 t = buffer_stops_on b t"
    unfolding buffer_stops_on_def upd by (cases "track_of b t") auto
qed

lemma add_buffer_stop_appends:
  assumes "add_buffer_stop th pos lbl b = Inr (x, b1)"
  shows "buffer_stops_on b1 t =
      (if t = th_id th \<and> track_of b t \<noteq> None then buffer_stops_on b t @ [x]
       else buffer_stops_on b t)"
    and "detectors_on b1 t = detectors_on b t" and "signals_on b1 t = signals_on b t"
proof -
  obtain i b0 where al: "alloc_id KBufferStop lbl b = (i, b0)"
    by (cases "alloc_id KBufferStop lbl b")
  from assms al
  have b1: "b1 = update_track (th_id th) (\<lambda>t. t\<lparr>bt_buffer_stops := bt_buffer_stops t @ [x]\<rparr>) b0"
    by (auto simp add: add_buffer_stop_def Let_def split: if_splits)
  have tr: "track_of b0 t = track_of b t" for t
    using track_of_alloc_id [of KBufferStop lbl b t] al by simp
  have upd: "track_of b1 t =
      map_option (\<lambda>y. if bt_id y = th_id th then y\<lparr>bt_buffer_stops := bt_buffer_stops y @ [x]\<rparr> else y)
        (track_of b t)"
    unfolding b1 by (simp add: track_of_update_track tr)
  have idt: "track_of b t = Some y \<Longrightarrow> bt_id y = t" for y
    unfolding track_of_def by (auto simp add: find_Some_iff)
  show "buffer_stops_on b1 t =
      (if t = th_id th \<and> track_of b t \<noteq> None then buffer_stops_on b t @ [x]
       else buffer_stops_on b t)"
    unfolding buffer_stops_on_def upd using idt by (cases "track_of b t") auto
  show "detectors_on b1 t = detectors_on b t"
    unfolding detectors_on_def upd by (cases "track_of b t") auto
  show "signals_on b1 t = signals_on b t"
    unfolding signals_on_def upd by (cases "track_of b t") auto
qed

lemma add_logical_signal_keeps:
  assumes "add_logical_signal sh kind st b = Inr b1"
  shows "map sig_id (signals_on b1 t) = map sig_id (signals_on b t)"
    and "map sig_position (signals_on b1 t) = map sig_position (signals_on b t)"
    and "detectors_on b1 t = detectors_on b t" and "buffer_stops_on b1 t = buffer_stops_on b t"
proof -
  let ?g = "\<lambda>s. if sig_id s = sh_id sh
                  then s\<lparr>sig_logical_signals := sig_logical_signals s @
                         [\<lparr>ls_signaling_system = kind, ls_settings = st,
                           ls_default_parameters = [], ls_conditional_parameters = []\<rparr>]\<rparr>
                  else s"
  from assms
  have b1: "b1 = update_track (sh_track sh) (\<lambda>t. t\<lparr>bt_signals := map ?g (bt_signals t)\<rparr>) b"
    by (auto simp add: add_logical_signal_def split: if_splits)
  have upd: "track_of b1 t =
      map_option (\<lambda>y. if bt_id y = sh_track sh then y\<lparr>bt_signals := map ?g (bt_signals y)\<rparr> else y)
        (track_of b t)"
    unfolding b1 by (simp add: track_of_update_track)
  have g1: "map sig_id (map ?g xs) = map sig_id xs" for xs :: "Signal list" by (induction xs) simp_all
  have g2: "map sig_position (map ?g xs) = map sig_position xs" for xs :: "Signal list" by (induction xs) simp_all
  show "map sig_id (signals_on b1 t) = map sig_id (signals_on b t)"
    unfolding signals_on_def upd using g1 by (cases "track_of b t") auto
  show "map sig_position (signals_on b1 t) = map sig_position (signals_on b t)"
    unfolding signals_on_def upd using g2 by (cases "track_of b t") auto
  show "detectors_on b1 t = detectors_on b t"
    unfolding detectors_on_def upd by (cases "track_of b t") auto
  show "buffer_stops_on b1 t = buffer_stops_on b t"
    unfolding buffer_stops_on_def upd by (cases "track_of b t") auto
qed

lemma build_orders:
  assumes "build p b = Inr d"
  shows "sorted (map det_position (on_track t (doc_detectors d))) \<and>
     sorted (map sig_position (on_track t (doc_signals d))) \<and>
     filter (\<lambda>x. det_position x = k) (on_track t (doc_detectors d)) =
       filter (\<lambda>x. det_position x = k) (detectors_on b t) \<and>
     filter (\<lambda>x. sig_position x = k) (on_track t (doc_signals d)) =
       filter (\<lambda>x. sig_position x = k) (signals_on b t) \<and>
     on_track t (doc_buffer_stops d) = buffer_stops_on b t \<and>
     doc_links d = b_links b \<and> doc_switches d = b_switches b \<and>
     map fst (doc_track_sections d) = map bt_id (b_tracks b)"
  unfolding doc_detectors_on [OF assms] doc_signals_on [OF assms] doc_buffer_stops_on [OF assms]
    build_Inr(5-7) [OF assms]
  by (simp add: sort_key_stable comp_def)

text \<open>
  Claim C5. In every document produced by \<^verbatim>\<open>build()\<close>, the detectors of a track and
  the signals of a track appear sorted by ascending offset, and the objects at one offset
  are exactly those the builder holds at that offset, in the same order: the sort is stable.
  The buffer stops of a track, the links, the switches and the track sections are in the
  order the builder holds them. The builder holds the objects of a track in insertion order:
  \<^verbatim>\<open>add_detector\<close>, \<^verbatim>\<open>add_signal\<close> and \<^verbatim>\<open>add_buffer_stop\<close> append the new
  object to the end of the objects of its track and leave every other list as it was, and
  \<^verbatim>\<open>add_logical_signal\<close> keeps the signals of every track in their order and at their
  offsets.
\<close>

theorem build_orders_by_offset:
  "(build p b = Inr d \<longrightarrow>
      sorted (map det_position (on_track t (doc_detectors d))) \<and>
      sorted (map sig_position (on_track t (doc_signals d))) \<and>
      filter (\<lambda>x. det_position x = k) (on_track t (doc_detectors d)) =
        filter (\<lambda>x. det_position x = k) (detectors_on b t) \<and>
      filter (\<lambda>x. sig_position x = k) (on_track t (doc_signals d)) =
        filter (\<lambda>x. sig_position x = k) (signals_on b t) \<and>
      on_track t (doc_buffer_stops d) = buffer_stops_on b t \<and>
      doc_links d = b_links b \<and> doc_switches d = b_switches b \<and>
      map fst (doc_track_sections d) = map bt_id (b_tracks b)) \<and>
   (add_detector th pos lbl b = Inr (x, bd) \<longrightarrow>
      det_position x = pos \<and>
      detectors_on bd t =
        (if t = th_id th \<and> track_of b t \<noteq> None then detectors_on b t @ [x]
         else detectors_on b t) \<and>
      signals_on bd t = signals_on b t \<and> buffer_stops_on bd t = buffer_stops_on b t) \<and>
   (add_signal th pos dir delim lbl sight b = Inr (h, bs) \<longrightarrow>
      signals_on bs t =
        (if t = th_id th \<and> track_of b t \<noteq> None
         then signals_on b t @ [\<lparr>sig_id = sh_id h, sig_position = pos, sig_direction = dir,
                sig_is_route_delimiter = delim, sig_sight_distance = sight,
                sig_logical_signals = []\<rparr>]
         else signals_on b t) \<and>
      detectors_on bs t = detectors_on b t \<and> buffer_stops_on bs t = buffer_stops_on b t) \<and>
   (add_logical_signal sh kind st b = Inr bl \<longrightarrow>
      map sig_id (signals_on bl t) = map sig_id (signals_on b t) \<and>
      map sig_position (signals_on bl t) = map sig_position (signals_on b t) \<and>
      detectors_on bl t = detectors_on b t \<and> buffer_stops_on bl t = buffer_stops_on b t) \<and>
   (add_buffer_stop th pos lbl b = Inr (y, bf) \<longrightarrow>
      buffer_stops_on bf t =
        (if t = th_id th \<and> track_of b t \<noteq> None then buffer_stops_on b t @ [y]
         else buffer_stops_on b t) \<and>
      detectors_on bf t = detectors_on b t \<and> signals_on bf t = signals_on b t)"
  using build_orders [of p b d t k] add_detector_appends(1) [of th pos lbl b x bd]
    add_detector_appends(2-4) [of th pos lbl b x bd t]
    add_signal_appends [of th pos dir delim lbl sight b h bs t]
    add_logical_signal_keeps [of sh kind st b bl t]
    add_buffer_stop_appends [of th pos lbl b y bf t]
  by blast


theorem build_orders_by_offset_witness:
  "\<exists>h b0 d1 b1 d2 b2 d3 b3 s b4 b5 y b6 doc.
     add_track_section 1000 None Builder_new = Inr (h, b0) \<and>
     add_detector h 700 None b0 = Inr (d1, b1) \<and>
     add_detector h 200 None b1 = Inr (d2, b2) \<and>
     add_detector h 200 (Some ''late'') b2 = Inr (d3, b3) \<and>
     add_signal h 500 START_TO_STOP True None None b3 = Inr (s, b4) \<and>
     add_logical_signal s ''BAL'' [(''Nf'', ''true'')] b4 = Inr b5 \<and>
     add_buffer_stop h 0 None b5 = Inr (y, b6) \<and>
     build process_start b6 = Inr doc \<and>
     detectors_on b3 (th_id h) = detectors_on b2 (th_id h) @ [d3] \<and>
     signals_on b4 (th_id h) = signals_on b3 (th_id h) @
       [\<lparr>sig_id = sh_id s, sig_position = 500, sig_direction = START_TO_STOP,
         sig_is_route_delimiter = True, sig_sight_distance = None, sig_logical_signals = []\<rparr>] \<and>
     map sig_id (signals_on b5 (th_id h)) = map sig_id (signals_on b4 (th_id h)) \<and>
     buffer_stops_on b6 (th_id h) = buffer_stops_on b5 (th_id h) @ [y] \<and>
     sorted (map det_position (on_track (th_id h) (doc_detectors doc))) \<and>
     filter (\<lambda>x. det_position x = 200) (on_track (th_id h) (doc_detectors doc)) =
       filter (\<lambda>x. det_position x = 200) (detectors_on b6 (th_id h)) \<and>
     map det_id (on_track (th_id h) (doc_detectors doc)) =
       [Auto KDetector 1, Given ''late'', Auto KDetector 0]"
proof -
  let ?h = "handle 0"
  let ?t = "Auto KTrackSection 0"
  let ?b0 = "snd (projr (add_track_section 1000 None Builder_new))"
  let ?r1 = "projr (add_detector ?h 700 None ?b0)"
  let ?r2 = "projr (add_detector ?h 200 None (snd ?r1))"
  let ?r3 = "projr (add_detector ?h 200 (Some ''late'') (snd ?r2))"
  let ?r4 = "projr (add_signal ?h 500 START_TO_STOP True None None (snd ?r3))"
  let ?b5 = "projr (add_logical_signal (fst ?r4) ''BAL'' [(''Nf'', ''true'')] (snd ?r4))"
  let ?r6 = "projr (add_buffer_stop ?h 0 None ?b5)"
  let ?doc = "projr (build process_start (snd ?r6))"
  note ev = add_track_section_def add_detector_def add_signal_def add_logical_signal_def
    add_buffer_stop_def update_track_def alloc_id_def Builder_new_def handle_def Let_def
    SignalingSystem_def InfraBuilder_init_def
  have e0: "add_track_section 1000 None Builder_new = Inr (?h, ?b0)" by (simp add: ev)
  have e1: "add_detector ?h 700 None ?b0 = Inr (fst ?r1, snd ?r1)" by (simp add: ev)
  have e2: "add_detector ?h 200 None (snd ?r1) = Inr (fst ?r2, snd ?r2)" by (simp add: ev)
  have e3: "add_detector ?h 200 (Some ''late'') (snd ?r2) = Inr (fst ?r3, snd ?r3)"
    by (simp add: ev)
  have e4: "add_signal ?h 500 START_TO_STOP True None None (snd ?r3) = Inr (fst ?r4, snd ?r4)"
    by (simp add: ev)
  have e5: "add_logical_signal (fst ?r4) ''BAL'' [(''Nf'', ''true'')] (snd ?r4) = Inr ?b5"
    by (simp add: ev)
  have e6: "add_buffer_stop ?h 0 None ?b5 = Inr (fst ?r6, snd ?r6)" by (simp add: ev)
  have e7: "build process_start (snd ?r6) = Inr ?doc"
    by (simp add: ev build_def consumed_def track_offsets_ok_def track_variants_ok_def
        offset_ok_def)
  have tr: "track_of (snd ?r2) ?t \<noteq> None" "track_of (snd ?r3) ?t \<noteq> None"
    "track_of ?b5 ?t \<noteq> None"
    by (simp_all add: ev track_of_def)
  have th: "th_id ?h = ?t" by (simp add: handle_def)
  from build_orders_by_offset [where th = "?h" and pos = 200 and lbl = "Some ''late''"
      and b = "snd ?r2" and x = "fst ?r3" and bd = "snd ?r3" and t = "?t"] e3 tr(1) th
  have c1: "detectors_on (snd ?r3) (th_id ?h) = detectors_on (snd ?r2) (th_id ?h) @ [fst ?r3]"
    by simp
  from build_orders_by_offset [where th = "?h" and pos = 500 and dir = START_TO_STOP
      and delim = True and lbl = None and sight = None
      and b = "snd ?r3" and h = "fst ?r4" and bs = "snd ?r4" and t = "?t"] e4 tr(2) th
  have c2: "signals_on (snd ?r4) (th_id ?h) = signals_on (snd ?r3) (th_id ?h) @
       [\<lparr>sig_id = sh_id (fst ?r4), sig_position = 500, sig_direction = START_TO_STOP,
         sig_is_route_delimiter = True, sig_sight_distance = None, sig_logical_signals = []\<rparr>]"
    by simp
  from build_orders_by_offset [where sh = "fst ?r4" and kind = "''BAL''"
      and st = "[(''Nf'', ''true'')]" and b = "snd ?r4" and bl = "?b5" and t = "th_id ?h"] e5
  have c3: "map sig_id (signals_on ?b5 (th_id ?h)) = map sig_id (signals_on (snd ?r4) (th_id ?h))"
    by blast
  from build_orders_by_offset [where th = "?h" and pos = 0 and lbl = None
      and b = "?b5" and y = "fst ?r6" and bf = "snd ?r6" and t = "?t"] e6 tr(3) th
  have c4: "buffer_stops_on (snd ?r6) (th_id ?h) = buffer_stops_on ?b5 (th_id ?h) @ [fst ?r6]"
    by simp
  from build_orders_by_offset [where p = process_start and b = "snd ?r6" and d = "?doc"
      and t = "th_id ?h" and k = 200] e7
  have c5: "sorted (map det_position (on_track (th_id ?h) (doc_detectors ?doc)))"
    and c6: "filter (\<lambda>x. det_position x = 200) (on_track (th_id ?h) (doc_detectors ?doc)) =
       filter (\<lambda>x. det_position x = 200) (detectors_on (snd ?r6) (th_id ?h))"
    by blast+
  have c7: "map det_id (on_track (th_id ?h) (doc_detectors ?doc)) =
       [Auto KDetector 1, Given ''late'', Auto KDetector 0]"
    by (simp add: ev build_def consumed_def track_offsets_ok_def track_variants_ok_def
        offset_ok_def on_track_def)
  show ?thesis
    by (intro exI conjI) (rule e0 e1 e2 e3 e4 e5 e6 e7 c1 c2 c3 c4 c5 c6 c7)+
qed

end
